theory Spec2Isabelle
  imports Complex_Main "HOL-Library.Word"
begin

unbundle bit_operations_syntax

section \<open>JavaScript values\<close>

text \<open>
  A JavaScript number is an IEEE-754 double: a finite value, NaN or an infinity.
  The finite values are embedded in the reals; the two zeros are identified
  (no operation of the modelled code observes the sign of a zero: every divisor
  is the constant 1000 or a value tested to be strictly positive).
\<close>

datatype jsnum = Fin real | NaN | PInf | NInf

text \<open>
  The values a decoded field can hold: a number, \<open>null\<close>, \<open>undefined\<close>
  or a string of 8-bit character codes.
\<close>

datatype jsval = Num jsnum | Null | Undefined | Str string

text \<open>
  What the platform computes and the repository does not define: the rounding of an
  exact result to the nearest double, the conversion of a string to a number, and the
  number of arguments a call can take (a call with more raises a RangeError).
\<close>

record platform =
  round_double :: "real \<Rightarrow> jsnum"
  string_to_number :: "string \<Rightarrow> jsnum"
  max_arguments :: nat

definition isNaN :: "jsnum \<Rightarrow> bool" where
  "isNaN a = (case a of NaN \<Rightarrow> True | _ \<Rightarrow> False)"

fun ToNumber :: "platform \<Rightarrow> jsval \<Rightarrow> jsnum" where
  "ToNumber P (Num a) = a"
| "ToNumber P Null = Fin 0"
| "ToNumber P Undefined = NaN"
| "ToNumber P (Str s) = string_to_number P s"

fun ToBoolean :: "jsval \<Rightarrow> bool" where
  "ToBoolean (Num (Fin x)) = (x \<noteq> 0)"
| "ToBoolean (Num NaN) = False"
| "ToBoolean (Num PInf) = True"
| "ToBoolean (Num NInf) = True"
| "ToBoolean Null = False"
| "ToBoolean Undefined = False"
| "ToBoolean (Str s) = (s \<noteq> [])"

text \<open>\<open>v == null\<close>: true of \<open>null\<close> and \<open>undefined\<close> only.\<close>

fun eqNull :: "jsval \<Rightarrow> bool" where
  "eqNull Null = True"
| "eqNull Undefined = True"
| "eqNull v = False"

text \<open>The arithmetic of doubles: the exact result on finite operands, rounded.\<close>

fun num_sub :: "platform \<Rightarrow> jsnum \<Rightarrow> jsnum \<Rightarrow> jsnum" where
  "num_sub P (Fin x) (Fin y) = round_double P (x - y)"
| "num_sub P NaN b = NaN"
| "num_sub P a NaN = NaN"
| "num_sub P PInf PInf = NaN"
| "num_sub P NInf NInf = NaN"
| "num_sub P PInf b = PInf"
| "num_sub P NInf b = NInf"
| "num_sub P (Fin x) PInf = NInf"
| "num_sub P (Fin x) NInf = PInf"

fun num_add :: "platform \<Rightarrow> jsnum \<Rightarrow> jsnum \<Rightarrow> jsnum" where
  "num_add P (Fin x) (Fin y) = round_double P (x + y)"
| "num_add P NaN b = NaN"
| "num_add P a NaN = NaN"
| "num_add P PInf NInf = NaN"
| "num_add P NInf PInf = NaN"
| "num_add P PInf b = PInf"
| "num_add P NInf b = NInf"
| "num_add P (Fin x) PInf = PInf"
| "num_add P (Fin x) NInf = NInf"

definition inf_of_sign :: "bool \<Rightarrow> jsnum" where
  "inf_of_sign positive = (if positive then PInf else NInf)"

fun num_mul :: "platform \<Rightarrow> jsnum \<Rightarrow> jsnum \<Rightarrow> jsnum" where
  "num_mul P (Fin x) (Fin y) = round_double P (x * y)"
| "num_mul P NaN b = NaN"
| "num_mul P a NaN = NaN"
| "num_mul P PInf (Fin y) = (if y = 0 then NaN else inf_of_sign (0 < y))"
| "num_mul P NInf (Fin y) = (if y = 0 then NaN else inf_of_sign (y < 0))"
| "num_mul P (Fin x) PInf = (if x = 0 then NaN else inf_of_sign (0 < x))"
| "num_mul P (Fin x) NInf = (if x = 0 then NaN else inf_of_sign (x < 0))"
| "num_mul P PInf PInf = PInf"
| "num_mul P PInf NInf = NInf"
| "num_mul P NInf PInf = NInf"
| "num_mul P NInf NInf = PInf"

fun num_div :: "platform \<Rightarrow> jsnum \<Rightarrow> jsnum \<Rightarrow> jsnum" where
  "num_div P (Fin x) (Fin y) =
     (if y = 0 then (if x = 0 then NaN else inf_of_sign (0 < x))
      else round_double P (x / y))"
| "num_div P NaN b = NaN"
| "num_div P a NaN = NaN"
| "num_div P (Fin x) PInf = Fin 0"
| "num_div P (Fin x) NInf = Fin 0"
| "num_div P PInf (Fin y) = inf_of_sign (0 \<le> y)"
| "num_div P NInf (Fin y) = inf_of_sign (y < 0)"
| "num_div P PInf b = NaN"
| "num_div P NInf b = NaN"

text \<open>\<open>a > 0\<close> on numbers: false of NaN.\<close>

fun gt_zero :: "jsnum \<Rightarrow> bool" where
  "gt_zero (Fin x) = (0 < x)"
| "gt_zero PInf = True"
| "gt_zero NaN = False"
| "gt_zero NInf = False"

text \<open>\<open>Math.max\<close> and \<open>Math.min\<close> of two numbers and of an argument list.\<close>

fun max2 :: "jsnum \<Rightarrow> jsnum \<Rightarrow> jsnum" where
  "max2 NaN b = NaN"
| "max2 a NaN = NaN"
| "max2 PInf b = PInf"
| "max2 a PInf = PInf"
| "max2 NInf b = b"
| "max2 a NInf = a"
| "max2 (Fin x) (Fin y) = Fin (max x y)"

fun min2 :: "jsnum \<Rightarrow> jsnum \<Rightarrow> jsnum" where
  "min2 NaN b = NaN"
| "min2 a NaN = NaN"
| "min2 NInf b = NInf"
| "min2 a NInf = NInf"
| "min2 PInf b = b"
| "min2 a PInf = a"
| "min2 (Fin x) (Fin y) = Fin (min x y)"

definition Math_max :: "jsnum list \<Rightarrow> jsnum" where
  "Math_max xs = foldl max2 NInf xs"

definition Math_min :: "jsnum list \<Rightarrow> jsnum" where
  "Math_min xs = foldl min2 PInf xs"

section \<open>The byte buffer and its two views\<close>

type_synonym byte = "8 word"

datatype error = RangeError | NotValidFIT | NoDiveRecords

text \<open>
  \<open>bytes[i]\<close> on the \<open>Uint8Array\<close>: \<open>undefined\<close> (here \<open>None\<close>) outside the buffer.
  An offset is a number that the decoder only increments, or sets to NaN by adding
  \<open>undefined\<close>; \<open>None\<close> stands for NaN.
\<close>

definition byte_at :: "byte list \<Rightarrow> nat \<Rightarrow> byte option" where
  "byte_at bytes i = (if i < length bytes then Some (bytes ! i) else None)"

text \<open>\<open>x & mask\<close> converts \<open>undefined\<close> to 0 first.\<close>

definition ToInt32 :: "byte option \<Rightarrow> byte" where
  "ToInt32 b = (case b of None \<Rightarrow> 0 | Some x \<Rightarrow> x)"

text \<open>The \<open>DataView\<close> getters convert the requested offset with ToIndex: NaN is 0.\<close>

definition ToIndex :: "nat option \<Rightarrow> nat" where
  "ToIndex offset = (case offset of None \<Rightarrow> 0 | Some i \<Rightarrow> i)"

text \<open>A getter throws a RangeError when the view does not hold all the bytes it reads.\<close>

definition view_bytes :: "byte list \<Rightarrow> nat \<Rightarrow> nat \<Rightarrow> bool \<Rightarrow> error + byte list" where
  "view_bytes data i n littleEndian =
     (if i + n \<le> length data
      then Inr (if littleEndian then rev (take n (drop i data)) else take n (drop i data))
      else Inl RangeError)"

definition be_value :: "byte list \<Rightarrow> nat" where
  "be_value bs = foldl (\<lambda>acc b. acc * 256 + unat b) 0 bs"

definition getUint :: "nat \<Rightarrow> byte list \<Rightarrow> nat \<Rightarrow> bool \<Rightarrow> error + nat" where
  "getUint n data i littleEndian =
     (case view_bytes data i n littleEndian of
        Inl e \<Rightarrow> Inl e
      | Inr bs \<Rightarrow> Inr (be_value bs))"

definition signed_of :: "nat \<Rightarrow> nat \<Rightarrow> int" where
  "signed_of bits v = (if 2 ^ (bits - 1) \<le> v then int v - 2 ^ bits else int v)"

definition getInt :: "nat \<Rightarrow> byte list \<Rightarrow> nat \<Rightarrow> bool \<Rightarrow> error + int" where
  "getInt n data i littleEndian =
     (case getUint n data i littleEndian of
        Inl e \<Rightarrow> Inl e
      | Inr v \<Rightarrow> Inr (signed_of (8 * n) v))"

abbreviation "getUint16 \<equiv> getUint 2"
abbreviation "getUint32 \<equiv> getUint 4"
abbreviation "getInt16 \<equiv> getInt 2"
abbreviation "getInt32 \<equiv> getInt 4"

definition getInt8 :: "byte list \<Rightarrow> nat \<Rightarrow> error + int" where
  "getInt8 data i = getInt 1 data i False"

text \<open>The value of an IEEE-754 bit pattern, exactly.\<close>

definition pow2 :: "int \<Rightarrow> real" where
  "pow2 k = (if 0 \<le> k then 2 ^ nat k else 1 / 2 ^ nat (- k))"

definition ieee_value :: "nat \<Rightarrow> nat \<Rightarrow> nat \<Rightarrow> jsnum" where
  "ieee_value ebits fbits w =
     (let f = w mod 2 ^ fbits;
          e = (w div 2 ^ fbits) mod 2 ^ ebits;
          negative = ((w div 2 ^ (fbits + ebits)) mod 2 = 1);
          bias = int (2 ^ (ebits - 1)) - 1;
          m = (if e = 0 then real f * pow2 (1 - bias - int fbits)
               else real (2 ^ fbits + f) * pow2 (int e - bias - int fbits))
      in if e = 2 ^ ebits - 1 then (if f = 0 then inf_of_sign (\<not> negative) else NaN)
         else Fin (if negative then - m else m))"

definition getFloat32 :: "byte list \<Rightarrow> nat \<Rightarrow> bool \<Rightarrow> error + jsnum" where
  "getFloat32 data i littleEndian =
     (case getUint 4 data i littleEndian of
        Inl e \<Rightarrow> Inl e
      | Inr w \<Rightarrow> Inr (ieee_value 8 23 w))"

definition getFloat64 :: "byte list \<Rightarrow> nat \<Rightarrow> bool \<Rightarrow> error + jsnum" where
  "getFloat64 data i littleEndian =
     (case getUint 8 data i littleEndian of
        Inl e \<Rightarrow> Inl e
      | Inr w \<Rightarrow> Inr (ieee_value 11 52 w))"

section \<open>The FIT decoder\<close>

text \<open>
  A field descriptor of a definition record. Each component is one byte read from
  the buffer, or \<open>undefined\<close> when the definition runs past the end of the buffer.
\<close>

record field_def =
  fieldDefNum :: "byte option"
  size_bytes :: "byte option"
  baseType :: "byte option"

record dev_field_def =
  fNum :: "byte option"
  dev_size :: "byte option"
  devIdx :: "byte option"

record msg_def =
  globalMesgNum :: nat
  def_fields :: "field_def list"
  devFields :: "dev_field_def list"
  littleEndian :: bool

text \<open>
  A decoded message: \<open>_mesgNum\<close> and one property per field number. The property
  key is the field number, or the key \<open>"undefined"\<close> (here \<open>None\<close>).
\<close>

record message =
  mesgNum :: nat
  props :: "byte option \<rightharpoonup> jsval"

text \<open>\<open>m[k]\<close>: the stored value, \<open>undefined\<close> for a missing property.\<close>

definition get_prop :: "message \<Rightarrow> byte \<Rightarrow> jsval" where
  "get_prop m k = (case props m (Some k) of None \<Rightarrow> Undefined | Some v \<Rightarrow> v)"

text \<open>\<open>offset + size\<close>: NaN when the offset is NaN or the size \<open>undefined\<close>.\<close>

definition advance :: "nat option \<Rightarrow> byte option \<Rightarrow> nat option" where
  "advance offset sz =
     (case offset of None \<Rightarrow> None
      | Some i \<Rightarrow> (case sz of None \<Rightarrow> None | Some n \<Rightarrow> Some (i + unat n)))"

text \<open>\<open>bytes[offset + i]\<close> with an offset that may be NaN.\<close>

definition byte_at_offset :: "byte list \<Rightarrow> nat option \<Rightarrow> nat \<Rightarrow> byte option" where
  "byte_at_offset bytes offset i =
     (case offset of None \<Rightarrow> None | Some s \<Rightarrow> byte_at bytes (s + i))"

text \<open>\<open>String.fromCharCode(c)\<close> of a byte; \<open>undefined\<close> gives the character 0.\<close>

definition fromCharCode :: "byte option \<Rightarrow> char" where
  "fromCharCode c = (case c of None \<Rightarrow> char_of (0::nat) | Some b \<Rightarrow> char_of (unat b))"

text \<open>
  The string loop of \<open>readFieldValue\<close>: \<open>i\<close> is the loop counter and \<open>n\<close> the number
  of iterations left (\<open>size - i\<close>); the loop stops at the first byte 0.
\<close>

fun readString :: "byte list \<Rightarrow> nat option \<Rightarrow> nat \<Rightarrow> nat \<Rightarrow> string" where
  "readString bytes offset i 0 = []"
| "readString bytes offset i (Suc n) =
     (let c = byte_at_offset bytes offset i
      in if c = Some 0 then []
         else fromCharCode c # readString bytes offset (i + 1) n)"

definition int_val :: "int \<Rightarrow> int \<Rightarrow> jsval" where
  "int_val sentinel v = (if v = sentinel then Null else Num (Fin (of_int v)))"

definition readFieldValue ::
  "byte list \<Rightarrow> field_def \<Rightarrow> bool \<Rightarrow> nat option \<Rightarrow> error + (jsval \<times> nat option)" where
  "readFieldValue bytes field le offset =
     (let start = offset;
          bt = unat (ToInt32 (baseType field) AND 0x1F);
          finish = (\<lambda>val. Inr (val, advance start (size_bytes field)))
      in if bt = 0 \<or> bt = 2 \<or> bt = 10 \<or> bt = 13 then
           finish (case byte_at_offset bytes offset 0 of
                     None \<Rightarrow> Undefined
                   | Some b \<Rightarrow> int_val 0xFF (uint b))
         else if bt = 1 then
           (case getInt8 bytes (ToIndex offset) of
              Inl e \<Rightarrow> Inl e | Inr v \<Rightarrow> finish (int_val 0x7F v))
         else if bt = 3 then
           (case getInt16 bytes (ToIndex offset) le of
              Inl e \<Rightarrow> Inl e | Inr v \<Rightarrow> finish (int_val 0x7FFF v))
         else if bt = 4 \<or> bt = 11 then
           (case getUint16 bytes (ToIndex offset) le of
              Inl e \<Rightarrow> Inl e | Inr v \<Rightarrow> finish (int_val 0xFFFF (int v)))
         else if bt = 5 then
           (case getInt32 bytes (ToIndex offset) le of
              Inl e \<Rightarrow> Inl e | Inr v \<Rightarrow> finish (int_val 0x7FFFFFFF v))
         else if bt = 6 \<or> bt = 12 then
           (case getUint32 bytes (ToIndex offset) le of
              Inl e \<Rightarrow> Inl e | Inr v \<Rightarrow> finish (int_val 0xFFFFFFFF (int v)))
         else if bt = 7 then
           finish (Str (readString bytes offset 0
                          (case size_bytes field of None \<Rightarrow> 0 | Some n \<Rightarrow> unat n)))
         else if bt = 8 then
           (case getFloat32 bytes (ToIndex offset) le of
              Inl e \<Rightarrow> Inl e | Inr v \<Rightarrow> finish (Num v))
         else if bt = 9 then
           (case getFloat64 bytes (ToIndex offset) le of
              Inl e \<Rightarrow> Inl e | Inr v \<Rightarrow> finish (Num v))
         else finish Null)"

text \<open>The two loops of \<open>readDataMessage\<close>: the fields, then the developer fields.\<close>

fun readFields ::
  "byte list \<Rightarrow> bool \<Rightarrow> field_def list \<Rightarrow> (byte option \<rightharpoonup> jsval) \<Rightarrow> nat option
     \<Rightarrow> error + ((byte option \<rightharpoonup> jsval) \<times> nat option)" where
  "readFields bytes le [] result offset = Inr (result, offset)"
| "readFields bytes le (field # rest) result offset =
     (case readFieldValue bytes field le offset of
        Inl e \<Rightarrow> Inl e
      | Inr (val, offset') \<Rightarrow>
          readFields bytes le rest (result(fieldDefNum field \<mapsto> val)) offset')"

fun skipDevFields :: "dev_field_def list \<Rightarrow> nat option \<Rightarrow> nat option" where
  "skipDevFields [] offset = offset"
| "skipDevFields (df # rest) offset = skipDevFields rest (advance offset (dev_size df))"

definition readDataMessage ::
  "byte list \<Rightarrow> msg_def \<Rightarrow> nat option \<Rightarrow> error + (message \<times> nat option)" where
  "readDataMessage bytes def offset =
     (case readFields bytes (littleEndian def) (def_fields def) Map.empty offset of
        Inl e \<Rightarrow> Inl e
      | Inr (result, offset') \<Rightarrow>
          Inr (\<lparr>mesgNum = globalMesgNum def, props = result\<rparr>,
               skipDevFields (devFields def) offset'))"

text \<open>
  The descriptor loops of a definition record: \<open>n\<close> descriptors of three bytes each,
  read at \<open>offset\<close>; the result carries the offset after the loop. A count that is
  \<open>undefined\<close> runs the loop zero times.
\<close>

definition loop_count :: "byte option \<Rightarrow> nat" where
  "loop_count n = (case n of None \<Rightarrow> 0 | Some k \<Rightarrow> unat k)"

fun readFieldDefs :: "byte list \<Rightarrow> nat \<Rightarrow> nat \<Rightarrow> field_def list \<times> nat" where
  "readFieldDefs bytes offset 0 = ([], offset)"
| "readFieldDefs bytes offset (Suc n) =
     (let (rest, offset') = readFieldDefs bytes (offset + 3) n
      in (\<lparr>fieldDefNum = byte_at bytes offset,
           size_bytes = byte_at bytes (offset + 1),
           baseType = byte_at bytes (offset + 2)\<rparr> # rest, offset'))"

fun readDevFieldDefs :: "byte list \<Rightarrow> nat \<Rightarrow> nat \<Rightarrow> dev_field_def list \<times> nat" where
  "readDevFieldDefs bytes offset 0 = ([], offset)"
| "readDevFieldDefs bytes offset (Suc n) =
     (let (rest, offset') = readDevFieldDefs bytes (offset + 3) n
      in (\<lparr>fNum = byte_at bytes offset,
           dev_size = byte_at bytes (offset + 1),
           devIdx = byte_at bytes (offset + 2)\<rparr> # rest, offset'))"

text \<open>
  The definition branch of the record loop; \<open>offset\<close> is the offset after the record
  header byte. The result is the definition and the offset after it.
\<close>

definition readDefinition ::
  "byte list \<Rightarrow> bool \<Rightarrow> nat \<Rightarrow> error + (msg_def \<times> nat)" where
  "readDefinition bytes hasDeveloperData offset =
     (let arch = byte_at bytes (offset + 1);
          le = (arch = Some 0)
      in case getUint16 bytes (offset + 2) le of
           Inl e \<Rightarrow> Inl e
         | Inr num \<Rightarrow>
             (let numFields = byte_at bytes (offset + 4);
                  (fs, offset1) = readFieldDefs bytes (offset + 5) (loop_count numFields);
                  (dfs, offset2) =
                     (if hasDeveloperData
                      then readDevFieldDefs bytes (offset1 + 1) (loop_count (byte_at bytes offset1))
                      else ([], offset1))
              in Inr (\<lparr>globalMesgNum = num, def_fields = fs, devFields = dfs, littleEndian = le\<rparr>,
                      offset2)))"

text \<open>Every read moves the offset forward, which is why the record loop ends.\<close>

lemma advance_Some: "advance offset sz = Some j \<Longrightarrow> \<exists>i. offset = Some i \<and> i \<le> j"
  by (auto simp: advance_def split: option.splits)

lemma readFieldValue_offset:
  "readFieldValue bytes field le offset = Inr (v, offset') \<Longrightarrow>
   offset' = advance offset (size_bytes field)"
  by (auto simp: readFieldValue_def Let_def split: if_splits sum.splits)

lemma readFields_Some:
  "readFields bytes le fs result offset = Inr (result', Some j) \<Longrightarrow>
   \<exists>i. offset = Some i \<and> i \<le> j"
proof (induction fs arbitrary: result offset)
  case Nil
  then show ?case by simp
next
  case (Cons f fs)
  from Cons.prems obtain v off1 where
    rv: "readFieldValue bytes f le offset = Inr (v, off1)" and
    rest: "readFields bytes le fs (result(fieldDefNum f \<mapsto> v)) off1 = Inr (result', Some j)"
    by (auto split: sum.splits)
  from Cons.IH [OF rest] obtain k where k: "off1 = Some k" "k \<le> j" by blast
  from readFieldValue_offset [OF rv] k(1) have "advance offset (size_bytes f) = Some k" by simp
  from advance_Some [OF this] k(2) show ?case by auto
qed

lemma skipDevFields_Some:
  "skipDevFields dfs offset = Some j \<Longrightarrow> \<exists>i. offset = Some i \<and> i \<le> j"
proof (induction dfs arbitrary: offset)
  case Nil
  then show ?case by simp
next
  case (Cons df dfs)
  from Cons.IH [of "advance offset (dev_size df)"] Cons.prems
  obtain k where "advance offset (dev_size df) = Some k" "k \<le> j" by auto
  with advance_Some [of offset "dev_size df" k] show ?case by auto
qed

lemma readDataMessage_Some:
  "readDataMessage bytes d offset = Inr (msg, Some j) \<Longrightarrow> \<exists>i. offset = Some i \<and> i \<le> j"
  by (auto simp: readDataMessage_def split: sum.splits
      dest!: skipDevFields_Some readFields_Some)

lemma readFieldDefs_offset:
  "readFieldDefs bytes offset n = (fs, offset') \<Longrightarrow> offset' = offset + 3 * n"
proof (induction n arbitrary: offset fs offset')
  case 0
  then show ?case by simp
next
  case (Suc n)
  obtain rest o' where r: "readFieldDefs bytes (offset + 3) n = (rest, o')"
    by (cases "readFieldDefs bytes (offset + 3) n")
  with Suc.prems have "offset' = o'" by simp
  with Suc.IH [OF r] show ?case by simp
qed

lemma readDevFieldDefs_offset:
  "readDevFieldDefs bytes offset n = (fs, offset') \<Longrightarrow> offset' = offset + 3 * n"
proof (induction n arbitrary: offset fs offset')
  case 0
  then show ?case by simp
next
  case (Suc n)
  obtain rest o' where r: "readDevFieldDefs bytes (offset + 3) n = (rest, o')"
    by (cases "readDevFieldDefs bytes (offset + 3) n")
  with Suc.prems have "offset' = o'" by simp
  with Suc.IH [OF r] show ?case by simp
qed

lemma readDefinition_offset:
  "readDefinition bytes dev offset = Inr (d, offset') \<Longrightarrow> offset + 5 \<le> offset'"
  by (auto simp: readDefinition_def Let_def split: sum.splits prod.splits if_splits
      dest!: readFieldDefs_offset readDevFieldDefs_offset)

text \<open>
  The record loop of \<open>parseFIT\<close>: \<open>while (offset < endOfData)\<close>, with the definition
  table and the message list it updates. A data message that leaves the offset NaN ends
  the loop, since \<open>NaN < endOfData\<close> is false.
\<close>

function parseRecords ::
  "byte list \<Rightarrow> nat \<Rightarrow> nat \<Rightarrow> (nat \<rightharpoonup> msg_def) \<Rightarrow> message list \<Rightarrow> error + message list" where
  "parseRecords bytes endOfData offset definitions messages =
     (if offset < endOfData then
        (let recordHeader = ToInt32 (byte_at bytes offset);
             offset1 = offset + 1
         in if recordHeader AND 0x80 \<noteq> 0 then
              (case definitions (unat (drop_bit 5 recordHeader AND 0x3)) of
                 None \<Rightarrow> parseRecords bytes endOfData offset1 definitions messages
               | Some def \<Rightarrow>
                   (case readDataMessage bytes def (Some offset1) of
                      Inl e \<Rightarrow> Inl e
                    | Inr (msg, None) \<Rightarrow> Inr (messages @ [msg])
                    | Inr (msg, Some offset') \<Rightarrow>
                        parseRecords bytes endOfData offset' definitions (messages @ [msg])))
            else if recordHeader AND 0x40 \<noteq> 0 then
              (case readDefinition bytes (recordHeader AND 0x20 \<noteq> 0) offset1 of
                 Inl e \<Rightarrow> Inl e
               | Inr (def, offset') \<Rightarrow>
                   parseRecords bytes endOfData offset'
                     (definitions(unat (recordHeader AND 0x0F) \<mapsto> def)) messages)
            else
              (case definitions (unat (recordHeader AND 0x0F)) of
                 None \<Rightarrow> Inr messages
               | Some def \<Rightarrow>
                   (case readDataMessage bytes def (Some offset1) of
                      Inl e \<Rightarrow> Inl e
                    | Inr (msg, None) \<Rightarrow> Inr (messages @ [msg])
                    | Inr (msg, Some offset') \<Rightarrow>
                        parseRecords bytes endOfData offset' definitions (messages @ [msg]))))
      else Inr messages)"
  by pat_completeness auto
termination
proof (relation "measure (\<lambda>(bytes, endOfData, offset, definitions, messages). endOfData - offset)")
  show "wf (measure (\<lambda>(bytes, endOfData, offset, definitions, messages). endOfData - offset))"
    by simp
qed (auto dest!: readDataMessage_Some readDefinition_offset)

declare parseRecords.simps [simp del]


definition parseFIT :: "byte list \<Rightarrow> error + message list" where
  "parseFIT bytes =
     (let headerSize = byte_at bytes 0
      in case getUint16 bytes 2 True of
           Inl e \<Rightarrow> Inl e
         | Inr profileVersion \<Rightarrow>
             (case getUint32 bytes 4 True of
                Inl e \<Rightarrow> Inl e
              | Inr dataSize \<Rightarrow>
                  (let dataType = map (\<lambda>i. fromCharCode (byte_at bytes i)) [8, 9, 10, 11]
                   in if dataType \<noteq> ''.FIT'' then Inl NotValidFIT
                      else (case headerSize of
                              None \<Rightarrow> Inr []
                            | Some h \<Rightarrow>
                                parseRecords bytes (unat h + dataSize) (unat h) Map.empty []))))"

section \<open>Timestamps\<close>

text \<open>
  A \<open>Date\<close> object is its time value in milliseconds, NaN for an invalid date.
  \<open>GARMIN_EPOCH\<close> is \<open>new Date('1989-12-31T00:00:00Z').getTime() / 1000\<close>.
\<close>

datatype jsdate = Date jsnum

definition GARMIN_EPOCH :: jsnum where
  "GARMIN_EPOCH = Fin 631065600"

definition TimeClip :: "jsnum \<Rightarrow> jsnum" where
  "TimeClip t =
     (case t of
        Fin x \<Rightarrow> if 8640000000000000 < \<bar>x\<bar> then NaN
                 else Fin (of_int (if 0 \<le> x then \<lfloor>x\<rfloor> else \<lceil>x\<rceil>))
      | _ \<Rightarrow> NaN)"

text \<open>\<open>a + b\<close> with a number on the right: concatenation when \<open>a\<close> is a string.\<close>

definition js_plus :: "platform \<Rightarrow> jsval \<Rightarrow> jsnum \<Rightarrow> string \<Rightarrow> jsval" where
  "js_plus P a b b_text =
     (case a of Str s \<Rightarrow> Str (s @ b_text) | _ \<Rightarrow> Num (num_add P (ToNumber P a) b))"

definition garminTimestampToDate :: "platform \<Rightarrow> jsval \<Rightarrow> jsdate option" where
  "garminTimestampToDate P ts =
     (if \<not> ToBoolean ts then None
      else Some (Date (TimeClip
             (num_mul P (ToNumber P (js_plus P ts GARMIN_EPOCH ''631065600'')) (Fin 1000)))))"

section \<open>Dive extraction\<close>

definition MESG_SESSION :: nat where "MESG_SESSION = 18"
definition MESG_RECORD :: nat where "MESG_RECORD = 20"
definition MESG_DIVE_SUMMARY :: nat where "MESG_DIVE_SUMMARY = 268"

definition F_TIMESTAMP :: byte where "F_TIMESTAMP = 253"
definition F_DEPTH :: byte where "F_DEPTH = 92"
definition F_ASCENT_RATE :: byte where "F_ASCENT_RATE = 127"
definition F_TEMPERATURE :: byte where "F_TEMPERATURE = 13"
definition F_NDL :: byte where "F_NDL = 96"
definition F_CNS :: byte where "F_CNS = 93"
definition SF_START_TIME :: byte where "SF_START_TIME = 2"
definition SF_TOTAL_ELAPSED_TIME :: byte where "SF_TOTAL_ELAPSED_TIME = 7"
definition DS_AVG_DEPTH :: byte where "DS_AVG_DEPTH = 2"
definition DS_MAX_DEPTH :: byte where "DS_MAX_DEPTH = 3"

text \<open>A sample; \<open>None\<close> is \<open>null\<close> in \<open>depth\<close> and \<open>ascentRate\<close>.\<close>

record sample =
  elapsed :: jsnum
  depth :: "jsnum option"
  ascentRate :: "jsnum option"
  temperature :: jsval
  ndl :: jsval
  cns :: jsval

record dive =
  startDate :: "jsdate option"
  totalTime :: jsnum
  maxDepth :: jsnum
  avgDepth :: "jsnum option"
  minTemp :: "jsnum option"
  maxTemp :: "jsnum option"
  samples :: "sample list"

text \<open>\<open>v != null ? v / 1000 : null\<close>\<close>

definition scaled :: "platform \<Rightarrow> jsval \<Rightarrow> jsnum option" where
  "scaled P v = (if \<not> eqNull v then Some (num_div P (ToNumber P v) (Fin 1000)) else None)"

text \<open>The function mapped over the records.\<close>

definition makeSample :: "platform \<Rightarrow> jsval \<Rightarrow> message \<Rightarrow> sample" where
  "makeSample P firstTs r =
     (let ts = get_prop r F_TIMESTAMP
      in \<lparr>elapsed = num_sub P (ToNumber P ts) (ToNumber P firstTs),
          depth = scaled P (get_prop r F_DEPTH),
          ascentRate = scaled P (get_prop r F_ASCENT_RATE),
          temperature = get_prop r F_TEMPERATURE,
          ndl = get_prop r F_NDL,
          cns = get_prop r F_CNS\<rparr>)"

text \<open>The body of the ascent-rate loop at index \<open>i\<close>, and the loop from \<open>i\<close> on.\<close>

definition backfill_step :: "platform \<Rightarrow> nat \<Rightarrow> sample list \<Rightarrow> sample list" where
  "backfill_step P i ss =
     (case (ascentRate (ss ! i), depth (ss ! i), depth (ss ! (i - 1))) of
        (None, Some d, Some d_prev) \<Rightarrow>
          (let dt = num_sub P (elapsed (ss ! i)) (elapsed (ss ! (i - 1)))
           in if gt_zero dt
              then ss[i := (ss ! i)\<lparr>ascentRate := Some (num_div P (num_sub P d_prev d) dt)\<rparr>]
              else ss)
      | _ \<Rightarrow> ss)"

function backfill :: "platform \<Rightarrow> nat \<Rightarrow> sample list \<Rightarrow> sample list" where
  "backfill P i ss =
     (if i < length ss then backfill P (i + 1) (backfill_step P i ss) else ss)"
  by pat_completeness auto
termination
  by (relation "measure (\<lambda>(P, i, ss). length ss - i)")
     (auto simp: backfill_step_def Let_def split: option.splits)

declare backfill.simps [simp del]

text \<open>\<open>s.depth || 0\<close>\<close>

definition depth_or_zero :: "sample \<Rightarrow> jsnum" where
  "depth_or_zero s =
     (case depth s of None \<Rightarrow> Fin 0 | Some d \<Rightarrow> if ToBoolean (Num d) then d else Fin 0)"

text \<open>\<open>list[0] || {}\<close>, as the lookup of a property in it.\<close>

definition first_or_empty :: "message list \<Rightarrow> byte \<Rightarrow> jsval" where
  "first_or_empty ms = (case ms of [] \<Rightarrow> (\<lambda>k. Undefined) | m # rest \<Rightarrow> get_prop m)"

text \<open>
  \<open>f(...xs)\<close>: the call passes one argument per element of the array, and raises a
  RangeError when they are more than the engine takes.
\<close>

definition spread :: "platform \<Rightarrow> ('a list \<Rightarrow> 'b) \<Rightarrow> 'a list \<Rightarrow> error + 'b" where
  "spread P f xs = (if max_arguments P < length xs then Inl RangeError else Inr (f xs))"

text \<open>
  \<open>extractDiveFromBuffer\<close> after the call of \<open>parseFIT\<close>. The three spread calls
  are evaluated in the order of the source: \<open>Math.max\<close> of the depths only when the
  summary has no true maximum depth, \<open>Math.min\<close> and \<open>Math.max\<close> of the temperatures only
  when there is one.
\<close>

definition extractDive :: "platform \<Rightarrow> message list \<Rightarrow> error + dive" where
  "extractDive P messages =
     (let records = filter (\<lambda>m. mesgNum m = MESG_RECORD) messages;
          sessions = filter (\<lambda>m. mesgNum m = MESG_SESSION) messages;
          diveSummaries = filter (\<lambda>m. mesgNum m = MESG_DIVE_SUMMARY) messages
      in if length records = 0 then Inl NoDiveRecords
         else
           (let firstTs = get_prop (records ! 0) F_TIMESTAMP;
                ss = backfill P 1 (map (makeSample P firstTs) records);
                session = first_or_empty sessions;
                summary = first_or_empty diveSummaries;
                start = garminTimestampToDate P
                   (if ToBoolean (session SF_START_TIME) then session SF_START_TIME else firstTs);
                total =
                   (if ToBoolean (session SF_TOTAL_ELAPSED_TIME)
                    then num_div P (ToNumber P (session SF_TOTAL_ELAPSED_TIME)) (Fin 1000)
                    else elapsed (ss ! (length ss - 1)))
            in case (if ToBoolean (summary DS_MAX_DEPTH)
                     then Inr (num_div P (ToNumber P (summary DS_MAX_DEPTH)) (Fin 1000))
                     else spread P Math_max (map depth_or_zero ss)) of
                 Inl e \<Rightarrow> Inl e
               | Inr deepest \<Rightarrow>
                   (let average =
                          (if ToBoolean (summary DS_AVG_DEPTH)
                           then Some (num_div P (ToNumber P (summary DS_AVG_DEPTH)) (Fin 1000))
                           else None);
                        temps = filter (\<lambda>t. \<not> eqNull t) (map temperature ss)
                    in case (if length temps \<noteq> 0
                             then spread P (\<lambda>ts. Some (Math_min (map (ToNumber P) ts))) temps
                             else Inr None) of
                         Inl e \<Rightarrow> Inl e
                       | Inr coldest \<Rightarrow>
                           (case (if length temps \<noteq> 0
                                  then spread P (\<lambda>ts. Some (Math_max (map (ToNumber P) ts))) temps
                                  else Inr None) of
                              Inl e \<Rightarrow> Inl e
                            | Inr warmest \<Rightarrow>
                                Inr \<lparr>startDate = start, totalTime = total, maxDepth = deepest,
                                     avgDepth = average, minTemp = coldest, maxTemp = warmest,
                                     samples = ss\<rparr>))))"

definition extractDiveFromBuffer :: "platform \<Rightarrow> byte list \<Rightarrow> error + dive" where
  "extractDiveFromBuffer P arrayBuffer =
     (case parseFIT arrayBuffer of
        Inl e \<Rightarrow> Inl e
      | Inr messages \<Rightarrow> extractDive P messages)"

section \<open>A platform for concrete runs\<close>

text \<open>
  The theorems below hold for every platform. Concrete runs use the one that rounds
  nothing, converts no string and takes 500000 arguments in a call.
\<close>

definition exact_platform :: platform where
  "exact_platform =
     \<lparr>round_double = Fin, string_to_number = (\<lambda>s. NaN), max_arguments = 500000\<rparr>"

section \<open>The ascent-rate loop\<close>

text \<open>
  What one iteration makes of the sample \<open>cur\<close>, given the sample \<open>prev\<close> before it:
  the ascent rate is computed when it is missing, both depths are there and the time
  difference is positive.
\<close>

definition fill :: "platform \<Rightarrow> sample \<Rightarrow> sample \<Rightarrow> sample" where
  "fill P prev cur =
     (case (ascentRate cur, depth cur, depth prev) of
        (None, Some d, Some d_prev) \<Rightarrow>
          (let dt = num_sub P (elapsed cur) (elapsed prev)
           in if gt_zero dt
              then cur\<lparr>ascentRate := Some (num_div P (num_sub P d_prev d) dt)\<rparr>
              else cur)
      | _ \<Rightarrow> cur)"

lemma backfill_step_fill:
  "i < length ss \<Longrightarrow> backfill_step P i ss = ss[i := fill P (ss ! (i - 1)) (ss ! i)]"
  by (simp add: backfill_step_def fill_def Let_def split: option.splits)

lemma length_backfill_step [simp]: "length (backfill_step P i ss) = length ss"
  by (simp add: backfill_step_def Let_def split: option.splits)

lemma fill_frame [simp]:
  "elapsed (fill P p c) = elapsed c" "depth (fill P p c) = depth c"
  "temperature (fill P p c) = temperature c" "ndl (fill P p c) = ndl c"
  "cns (fill P p c) = cns c"
  by (simp_all add: fill_def Let_def split: option.splits)

lemma fill_cong_prev:
  "depth p = depth p' \<Longrightarrow> elapsed p = elapsed p' \<Longrightarrow> fill P p c = fill P p' c"
  by (simp add: fill_def Let_def split: option.splits)

lemma length_backfill [simp]: "length (backfill P i ss) = length ss"
proof (induction P i ss rule: backfill.induct)
  case (1 P i ss)
  then show ?case by (subst backfill.simps) simp
qed

lemma backfill_nth:
  "j < length ss \<Longrightarrow>
   backfill P i ss ! j = (if i \<le> j then fill P (ss ! (j - 1)) (ss ! j) else ss ! j)"
proof (induction P i ss arbitrary: j rule: backfill.induct)
  case (1 P i ss)
  show ?case
  proof (cases "i < length ss")
    case False
    with "1.prems" show ?thesis by (subst backfill.simps) simp
  next
    case True
    let ?ss' = "backfill_step P i ss"
    have ss': "?ss' = ss[i := fill P (ss ! (i - 1)) (ss ! i)]"
      using True by (rule backfill_step_fill)
    have j': "j < length ?ss'" using "1.prems" by simp
    have unfold: "backfill P i ss = backfill P (i + 1) ?ss'"
      using True by (subst backfill.simps) simp
    have IH: "backfill P (i + 1) ?ss' ! j =
        (if i + 1 \<le> j then fill P (?ss' ! (j - 1)) (?ss' ! j) else ?ss' ! j)"
      using "1.IH" [OF True j'] .
    show ?thesis
    proof (cases "i + 1 \<le> j")
      case far: True
      then have cur: "?ss' ! j = ss ! j" by (simp add: ss')
      have prev: "depth (?ss' ! (j - 1)) = depth (ss ! (j - 1))"
                 "elapsed (?ss' ! (j - 1)) = elapsed (ss ! (j - 1))"
        using True by (simp_all add: ss' nth_list_update)
      have "fill P (?ss' ! (j - 1)) (?ss' ! j) = fill P (ss ! (j - 1)) (ss ! j)"
        unfolding cur by (rule fill_cong_prev [OF prev])
      with far unfold IH show ?thesis by simp
    next
      case near: False
      then have "j < i \<or> j = i" by arith
      with near unfold IH "1.prems" True show ?thesis
        by (auto simp: ss' nth_list_update)
    qed
  qed
qed


text \<open>
  Claim C1. The ascent-rate loop keeps the length of the sample list. At every index
  \<open>i \<ge> 1\<close> whose ascent rate is \<open>null\<close>, where the sample and the one before it both
  have a depth and the difference \<open>dt\<close> of their elapsed times is greater than 0, the
  loop sets the rate to \<open>(depth[i-1] - depth[i]) / dt\<close>. At every other index (index 0,
  a rate already there, a depth missing on either side, or \<open>dt\<close> not greater than 0)
  the rate is what it was. So the loop changes nothing when every sample has a rate.
  This holds of every sample list, in particular of the one mapped from the records.
\<close>

theorem backfill_ascent_rate:
  "length (backfill P 1 ss) = length ss \<and>
   (\<forall>i d d_prev.
      1 \<le> i \<and> i < length ss \<and> ascentRate (ss ! i) = None \<and>
      depth (ss ! i) = Some d \<and> depth (ss ! (i - 1)) = Some d_prev \<and>
      gt_zero (num_sub P (elapsed (ss ! i)) (elapsed (ss ! (i - 1)))) \<longrightarrow>
      ascentRate (backfill P 1 ss ! i) =
        Some (num_div P (num_sub P d_prev d)
                (num_sub P (elapsed (ss ! i)) (elapsed (ss ! (i - 1)))))) \<and>
   (\<forall>i. i < length ss \<and>
        (i = 0 \<or> ascentRate (ss ! i) \<noteq> None \<or> depth (ss ! i) = None \<or>
         depth (ss ! (i - 1)) = None \<or>
         \<not> gt_zero (num_sub P (elapsed (ss ! i)) (elapsed (ss ! (i - 1))))) \<longrightarrow>
        ascentRate (backfill P 1 ss ! i) = ascentRate (ss ! i)) \<and>
   ((\<forall>s \<in> set ss. ascentRate s \<noteq> None) \<longrightarrow> backfill P 1 ss = ss)"
proof (intro conjI allI impI)
  show "length (backfill P 1 ss) = length ss" by simp
next
  fix i d d_prev
  assume h: "1 \<le> i \<and> i < length ss \<and> ascentRate (ss ! i) = None \<and>
      depth (ss ! i) = Some d \<and> depth (ss ! (i - 1)) = Some d_prev \<and>
      gt_zero (num_sub P (elapsed (ss ! i)) (elapsed (ss ! (i - 1))))"
  then have "backfill P 1 ss ! i = fill P (ss ! (i - 1)) (ss ! i)"
    by (simp add: backfill_nth)
  with h show "ascentRate (backfill P 1 ss ! i) =
        Some (num_div P (num_sub P d_prev d)
                (num_sub P (elapsed (ss ! i)) (elapsed (ss ! (i - 1)))))"
    by (simp add: fill_def)
next
  fix i
  assume h: "i < length ss \<and>
        (i = 0 \<or> ascentRate (ss ! i) \<noteq> None \<or> depth (ss ! i) = None \<or>
         depth (ss ! (i - 1)) = None \<or>
         \<not> gt_zero (num_sub P (elapsed (ss ! i)) (elapsed (ss ! (i - 1)))))"
  then have "backfill P 1 ss ! i = (if 1 \<le> i then fill P (ss ! (i - 1)) (ss ! i) else ss ! i)"
    by (simp add: backfill_nth)
  with h show "ascentRate (backfill P 1 ss ! i) = ascentRate (ss ! i)"
    by (auto simp: fill_def Let_def split: option.splits)
next
  assume all: "\<forall>s \<in> set ss. ascentRate s \<noteq> None"
  show "backfill P 1 ss = ss"
  proof (rule nth_equalityI)
    show "length (backfill P 1 ss) = length ss" by simp
  next
    fix j assume "j < length (backfill P 1 ss)"
    then have j: "j < length ss" by simp
    with all have "ascentRate (ss ! j) \<noteq> None" by simp
    then have "fill P (ss ! (j - 1)) (ss ! j) = ss ! j"
      by (auto simp: fill_def split: option.splits)
    with j show "backfill P 1 ss ! j = ss ! j" by (simp add: backfill_nth)
  qed
qed

theorem backfill_ascent_rate_witness:
  "ascentRate
     (backfill exact_platform 1
        [\<lparr>elapsed = Fin 0, depth = Some (Fin 10), ascentRate = None,
          temperature = Undefined, ndl = Undefined, cns = Undefined\<rparr>,
         \<lparr>elapsed = Fin 2, depth = Some (Fin 8), ascentRate = None,
          temperature = Undefined, ndl = Undefined, cns = Undefined\<rparr>] ! 1) = Some (Fin 1) \<and>
   ascentRate
     (backfill exact_platform 1
        [\<lparr>elapsed = Fin 0, depth = Some (Fin 10), ascentRate = None,
          temperature = Undefined, ndl = Undefined, cns = Undefined\<rparr>,
         \<lparr>elapsed = Fin 2, depth = Some (Fin 8), ascentRate = None,
          temperature = Undefined, ndl = Undefined, cns = Undefined\<rparr>] ! 0) = None \<and>
   backfill exact_platform 1
      [\<lparr>elapsed = Fin 0, depth = Some (Fin 10), ascentRate = Some (Fin 3),
        temperature = Undefined, ndl = Undefined, cns = Undefined\<rparr>,
       \<lparr>elapsed = Fin 2, depth = Some (Fin 8), ascentRate = Some (Fin 4),
        temperature = Undefined, ndl = Undefined, cns = Undefined\<rparr>] =
      [\<lparr>elapsed = Fin 0, depth = Some (Fin 10), ascentRate = Some (Fin 3),
        temperature = Undefined, ndl = Undefined, cns = Undefined\<rparr>,
       \<lparr>elapsed = Fin 2, depth = Some (Fin 8), ascentRate = Some (Fin 4),
        temperature = Undefined, ndl = Undefined, cns = Undefined\<rparr>]"
proof (intro conjI)
  let ?ss = "[\<lparr>elapsed = Fin 0, depth = Some (Fin 10), ascentRate = None,
          temperature = Undefined, ndl = Undefined, cns = Undefined\<rparr>,
         \<lparr>elapsed = Fin 2, depth = Some (Fin 8), ascentRate = None,
          temperature = Undefined, ndl = Undefined, cns = Undefined\<rparr>]"
  let ?tt = "[\<lparr>elapsed = Fin 0, depth = Some (Fin 10), ascentRate = Some (Fin 3),
        temperature = Undefined, ndl = Undefined, cns = Undefined\<rparr>,
       \<lparr>elapsed = Fin 2, depth = Some (Fin 8), ascentRate = Some (Fin 4),
        temperature = Undefined, ndl = Undefined, cns = Undefined\<rparr>]"
  show "ascentRate (backfill exact_platform 1 ?ss ! 1) = Some (Fin 1)"
    using backfill_ascent_rate [of exact_platform ?ss, THEN conjunct2, THEN conjunct1,
        rule_format, of 1 "Fin 8" "Fin 10"]
    by (simp add: exact_platform_def)
  show "ascentRate (backfill exact_platform 1 ?ss ! 0) = None"
    using backfill_ascent_rate [of exact_platform ?ss, THEN conjunct2, THEN conjunct2,
        THEN conjunct1, rule_format, of 0]
    by simp
  show "backfill exact_platform 1 ?tt = ?tt"
    using backfill_ascent_rate [of exact_platform ?tt, THEN conjunct2, THEN conjunct2,
        THEN conjunct2]
    by simp
qed

text \<open>
  Claim C10. The ascent-rate loop writes nothing but \<open>ascentRate\<close>: the list keeps its
  length, every sample keeps its place and its elapsed time, depth, temperature, NDL
  and CNS; a sample that has an ascent rate is not changed at all, and neither is the
  sample at index 0.
\<close>

theorem backfill_frame:
  "length (backfill P 1 ss) = length ss \<and>
   (\<forall>i. i < length ss \<longrightarrow>
      elapsed (backfill P 1 ss ! i) = elapsed (ss ! i) \<and>
      depth (backfill P 1 ss ! i) = depth (ss ! i) \<and>
      temperature (backfill P 1 ss ! i) = temperature (ss ! i) \<and>
      ndl (backfill P 1 ss ! i) = ndl (ss ! i) \<and>
      cns (backfill P 1 ss ! i) = cns (ss ! i) \<and>
      (ascentRate (ss ! i) \<noteq> None \<longrightarrow> backfill P 1 ss ! i = ss ! i) \<and>
      (i = 0 \<longrightarrow> backfill P 1 ss ! i = ss ! i))"
proof (intro conjI allI impI)
  show "length (backfill P 1 ss) = length ss" by simp
next
  fix i assume i: "i < length ss"
  then have eq: "backfill P 1 ss ! i = (if 1 \<le> i then fill P (ss ! (i - 1)) (ss ! i) else ss ! i)"
    by (simp add: backfill_nth)
  show "elapsed (backfill P 1 ss ! i) = elapsed (ss ! i)" unfolding eq by simp
  show "depth (backfill P 1 ss ! i) = depth (ss ! i)" unfolding eq by simp
  show "temperature (backfill P 1 ss ! i) = temperature (ss ! i)" unfolding eq by simp
  show "ndl (backfill P 1 ss ! i) = ndl (ss ! i)" unfolding eq by simp
  show "cns (backfill P 1 ss ! i) = cns (ss ! i)" unfolding eq by simp
  show "backfill P 1 ss ! i = ss ! i" if "ascentRate (ss ! i) \<noteq> None"
    using that unfolding eq by (auto simp: fill_def split: option.splits)
  show "backfill P 1 ss ! i = ss ! i" if "i = 0"
    using that unfolding eq by simp
qed


theorem backfill_frame_witness:
  "length (backfill exact_platform 1
     [\<lparr>elapsed = Fin 0, depth = Some (Fin 10), ascentRate = None,
       temperature = Num (Fin 21), ndl = Num (Fin 99), cns = Num (Fin 1)\<rparr>,
      \<lparr>elapsed = Fin 2, depth = Some (Fin 8), ascentRate = Some (Fin 7),
       temperature = Num (Fin 20), ndl = Null, cns = Undefined\<rparr>,
      \<lparr>elapsed = Fin 5, depth = Some (Fin 2), ascentRate = None,
       temperature = Null, ndl = Num (Fin 98), cns = Num (Fin 2)\<rparr>]) = 3 \<and>
   (backfill exact_platform 1
     [\<lparr>elapsed = Fin 0, depth = Some (Fin 10), ascentRate = None,
       temperature = Num (Fin 21), ndl = Num (Fin 99), cns = Num (Fin 1)\<rparr>,
      \<lparr>elapsed = Fin 2, depth = Some (Fin 8), ascentRate = Some (Fin 7),
       temperature = Num (Fin 20), ndl = Null, cns = Undefined\<rparr>,
      \<lparr>elapsed = Fin 5, depth = Some (Fin 2), ascentRate = None,
       temperature = Null, ndl = Num (Fin 98), cns = Num (Fin 2)\<rparr>]) ! 0 =
     \<lparr>elapsed = Fin 0, depth = Some (Fin 10), ascentRate = None,
      temperature = Num (Fin 21), ndl = Num (Fin 99), cns = Num (Fin 1)\<rparr> \<and>
   (backfill exact_platform 1
     [\<lparr>elapsed = Fin 0, depth = Some (Fin 10), ascentRate = None,
       temperature = Num (Fin 21), ndl = Num (Fin 99), cns = Num (Fin 1)\<rparr>,
      \<lparr>elapsed = Fin 2, depth = Some (Fin 8), ascentRate = Some (Fin 7),
       temperature = Num (Fin 20), ndl = Null, cns = Undefined\<rparr>,
      \<lparr>elapsed = Fin 5, depth = Some (Fin 2), ascentRate = None,
       temperature = Null, ndl = Num (Fin 98), cns = Num (Fin 2)\<rparr>]) ! 1 =
     \<lparr>elapsed = Fin 2, depth = Some (Fin 8), ascentRate = Some (Fin 7),
      temperature = Num (Fin 20), ndl = Null, cns = Undefined\<rparr> \<and>
   elapsed ((backfill exact_platform 1
     [\<lparr>elapsed = Fin 0, depth = Some (Fin 10), ascentRate = None,
       temperature = Num (Fin 21), ndl = Num (Fin 99), cns = Num (Fin 1)\<rparr>,
      \<lparr>elapsed = Fin 2, depth = Some (Fin 8), ascentRate = Some (Fin 7),
       temperature = Num (Fin 20), ndl = Null, cns = Undefined\<rparr>,
      \<lparr>elapsed = Fin 5, depth = Some (Fin 2), ascentRate = None,
       temperature = Null, ndl = Num (Fin 98), cns = Num (Fin 2)\<rparr>]) ! 2) = Fin 5 \<and>
   depth ((backfill exact_platform 1
     [\<lparr>elapsed = Fin 0, depth = Some (Fin 10), ascentRate = None,
       temperature = Num (Fin 21), ndl = Num (Fin 99), cns = Num (Fin 1)\<rparr>,
      \<lparr>elapsed = Fin 2, depth = Some (Fin 8), ascentRate = Some (Fin 7),
       temperature = Num (Fin 20), ndl = Null, cns = Undefined\<rparr>,
      \<lparr>elapsed = Fin 5, depth = Some (Fin 2), ascentRate = None,
       temperature = Null, ndl = Num (Fin 98), cns = Num (Fin 2)\<rparr>]) ! 2) = Some (Fin 2) \<and>
   temperature ((backfill exact_platform 1
     [\<lparr>elapsed = Fin 0, depth = Some (Fin 10), ascentRate = None,
       temperature = Num (Fin 21), ndl = Num (Fin 99), cns = Num (Fin 1)\<rparr>,
      \<lparr>elapsed = Fin 2, depth = Some (Fin 8), ascentRate = Some (Fin 7),
       temperature = Num (Fin 20), ndl = Null, cns = Undefined\<rparr>,
      \<lparr>elapsed = Fin 5, depth = Some (Fin 2), ascentRate = None,
       temperature = Null, ndl = Num (Fin 98), cns = Num (Fin 2)\<rparr>]) ! 2) = Null \<and>
   ndl ((backfill exact_platform 1
     [\<lparr>elapsed = Fin 0, depth = Some (Fin 10), ascentRate = None,
       temperature = Num (Fin 21), ndl = Num (Fin 99), cns = Num (Fin 1)\<rparr>,
      \<lparr>elapsed = Fin 2, depth = Some (Fin 8), ascentRate = Some (Fin 7),
       temperature = Num (Fin 20), ndl = Null, cns = Undefined\<rparr>,
      \<lparr>elapsed = Fin 5, depth = Some (Fin 2), ascentRate = None,
       temperature = Null, ndl = Num (Fin 98), cns = Num (Fin 2)\<rparr>]) ! 2) = Num (Fin 98) \<and>
   cns ((backfill exact_platform 1
     [\<lparr>elapsed = Fin 0, depth = Some (Fin 10), ascentRate = None,
       temperature = Num (Fin 21), ndl = Num (Fin 99), cns = Num (Fin 1)\<rparr>,
      \<lparr>elapsed = Fin 2, depth = Some (Fin 8), ascentRate = Some (Fin 7),
       temperature = Num (Fin 20), ndl = Null, cns = Undefined\<rparr>,
      \<lparr>elapsed = Fin 5, depth = Some (Fin 2), ascentRate = None,
       temperature = Null, ndl = Num (Fin 98), cns = Num (Fin 2)\<rparr>]) ! 2) = Num (Fin 2)"
proof -
  let ?ss = "[\<lparr>elapsed = Fin 0, depth = Some (Fin 10), ascentRate = None,
       temperature = Num (Fin 21), ndl = Num (Fin 99), cns = Num (Fin 1)\<rparr>,
      \<lparr>elapsed = Fin 2, depth = Some (Fin 8), ascentRate = Some (Fin 7),
       temperature = Num (Fin 20), ndl = Null, cns = Undefined\<rparr>,
      \<lparr>elapsed = Fin 5, depth = Some (Fin 2), ascentRate = None,
       temperature = Null, ndl = Num (Fin 98), cns = Num (Fin 2)\<rparr>]"
  note frame = backfill_frame [of exact_platform ?ss]
  have len: "length (backfill exact_platform 1 ?ss) = 3" using frame by simp
  have r0: "backfill exact_platform 1 ?ss ! 0 = ?ss ! 0"
    using frame [THEN conjunct2, rule_format, of 0] by simp
  have r1: "backfill exact_platform 1 ?ss ! 1 = ?ss ! 1"
    using frame [THEN conjunct2, rule_format, of 1] by simp
  have r2: "elapsed (backfill exact_platform 1 ?ss ! 2) = elapsed (?ss ! 2) \<and>
      depth (backfill exact_platform 1 ?ss ! 2) = depth (?ss ! 2) \<and>
      temperature (backfill exact_platform 1 ?ss ! 2) = temperature (?ss ! 2) \<and>
      ndl (backfill exact_platform 1 ?ss ! 2) = ndl (?ss ! 2) \<and>
      cns (backfill exact_platform 1 ?ss ! 2) = cns (?ss ! 2)"
    using frame [THEN conjunct2, rule_format, of 2] by simp
  from len r0 r1 r2 show ?thesis by simp
qed

section \<open>Reading one field\<close>

lemma getUint_ok: "i + n \<le> length data \<Longrightarrow> \<exists>v. getUint n data i le = Inr v"
  by (simp add: getUint_def view_bytes_def)

lemma getInt_ok: "i + n \<le> length data \<Longrightarrow> \<exists>v. getInt n data i le = Inr v"
  using getUint_ok [of i n data le] by (auto simp: getInt_def)

lemma getUint_error: "getUint n data i le = Inl e \<Longrightarrow> e = RangeError \<and> length data < i + n"
  by (auto simp: getUint_def view_bytes_def split: if_splits)

lemma getInt_error: "getInt n data i le = Inl e \<Longrightarrow> e = RangeError \<and> length data < i + n"
  by (auto simp: getInt_def split: sum.splits dest: getUint_error)

lemma getFloat32_error: "getFloat32 data i le = Inl e \<Longrightarrow> e = RangeError \<and> length data < i + 4"
  by (auto simp: getFloat32_def split: sum.splits dest: getUint_error)

lemma getFloat64_error: "getFloat64 data i le = Inl e \<Longrightarrow> e = RangeError \<and> length data < i + 8"
  by (auto simp: getFloat64_def split: sum.splits dest: getUint_error)

lemma readFieldValue_error:
  "readFieldValue bytes field le offset = Inl e \<Longrightarrow>
   e = RangeError \<and> length bytes < ToIndex offset + 8"
  by (auto simp: readFieldValue_def Let_def getInt8_def split: if_splits sum.splits
      dest!: getUint_error getInt_error getFloat32_error getFloat64_error)

lemma low5_idem: "ToInt32 (Some ((b::byte) AND 0x1F)) AND 0x1F = ToInt32 (Some b) AND 0x1F"
  by (simp add: ToInt32_def and.assoc)

text \<open>
  Claim C2. \<open>readFieldValue\<close> chooses the representation by the low 5 bits of the base
  type. A field whose raw value is the sentinel of its representation (0xFF for the
  numbers 0, 2, 10, 13; 0x7F for 1; 0x7FFF for 3; 0xFFFF for 4, 11; 0x7FFFFFFF for 5;
  0xFFFFFFFF for 6, 12) reads as \<open>null\<close>, whatever its declared size. A base type
  number above 13 reads as \<open>null\<close>. Every read that returns leaves the offset at the
  start plus the declared size; the only reads that do not return are those of a
  \<open>DataView\<close> getter whose bytes are not all in the buffer.
\<close>

theorem readFieldValue_sentinel:
  assumes bt: "bt = unat (ToInt32 (baseType field) AND 0x1F)"
  shows
  "(\<forall>b. baseType field = Some b \<longrightarrow>
      readFieldValue bytes (field\<lparr>baseType := Some (b AND 0x1F)\<rparr>) le offset =
      readFieldValue bytes field le offset) \<and>
   ((bt = 0 \<or> bt = 2 \<or> bt = 10 \<or> bt = 13) \<and> byte_at_offset bytes offset 0 = Some 0xFF \<longrightarrow>
      readFieldValue bytes field le offset = Inr (Null, advance offset (size_bytes field))) \<and>
   (bt = 1 \<and> getInt8 bytes (ToIndex offset) = Inr 0x7F \<longrightarrow>
      readFieldValue bytes field le offset = Inr (Null, advance offset (size_bytes field))) \<and>
   (bt = 3 \<and> getInt16 bytes (ToIndex offset) le = Inr 0x7FFF \<longrightarrow>
      readFieldValue bytes field le offset = Inr (Null, advance offset (size_bytes field))) \<and>
   ((bt = 4 \<or> bt = 11) \<and> getUint16 bytes (ToIndex offset) le = Inr 0xFFFF \<longrightarrow>
      readFieldValue bytes field le offset = Inr (Null, advance offset (size_bytes field))) \<and>
   (bt = 5 \<and> getInt32 bytes (ToIndex offset) le = Inr 0x7FFFFFFF \<longrightarrow>
      readFieldValue bytes field le offset = Inr (Null, advance offset (size_bytes field))) \<and>
   ((bt = 6 \<or> bt = 12) \<and> getUint32 bytes (ToIndex offset) le = Inr 0xFFFFFFFF \<longrightarrow>
      readFieldValue bytes field le offset = Inr (Null, advance offset (size_bytes field))) \<and>
   (13 < bt \<longrightarrow>
      readFieldValue bytes field le offset = Inr (Null, advance offset (size_bytes field))) \<and>
   (\<forall>v offset'. readFieldValue bytes field le offset = Inr (v, offset') \<longrightarrow>
      offset' = advance offset (size_bytes field)) \<and>
   (\<forall>i n. offset = Some i \<and> size_bytes field = Some n \<longrightarrow>
      advance offset (size_bytes field) = Some (i + unat n)) \<and>
   (\<forall>e. readFieldValue bytes field le offset = Inl e \<longrightarrow>
      e = RangeError \<and> length bytes < ToIndex offset + 8 \<and>
      bt \<in> {1, 3, 4, 5, 6, 8, 9, 11, 12})"
proof (intro conjI allI impI)
  fix b assume "baseType field = Some b"
  then show "readFieldValue bytes (field\<lparr>baseType := Some (b AND 0x1F)\<rparr>) le offset =
      readFieldValue bytes field le offset"
    by (simp add: readFieldValue_def low5_idem cong: if_cong)
next
  assume "(bt = 0 \<or> bt = 2 \<or> bt = 10 \<or> bt = 13) \<and> byte_at_offset bytes offset 0 = Some 0xFF"
  then show "readFieldValue bytes field le offset = Inr (Null, advance offset (size_bytes field))"
    using bt by (auto simp: readFieldValue_def Let_def int_val_def)
next
  assume "bt = 1 \<and> getInt8 bytes (ToIndex offset) = Inr 0x7F"
  then show "readFieldValue bytes field le offset = Inr (Null, advance offset (size_bytes field))"
    using bt by (simp add: readFieldValue_def Let_def int_val_def)
next
  assume "bt = 3 \<and> getInt16 bytes (ToIndex offset) le = Inr 0x7FFF"
  then show "readFieldValue bytes field le offset = Inr (Null, advance offset (size_bytes field))"
    using bt by (simp add: readFieldValue_def Let_def int_val_def)
next
  assume "(bt = 4 \<or> bt = 11) \<and> getUint16 bytes (ToIndex offset) le = Inr 0xFFFF"
  then show "readFieldValue bytes field le offset = Inr (Null, advance offset (size_bytes field))"
    using bt by (auto simp: readFieldValue_def Let_def int_val_def)
next
  assume "bt = 5 \<and> getInt32 bytes (ToIndex offset) le = Inr 0x7FFFFFFF"
  then show "readFieldValue bytes field le offset = Inr (Null, advance offset (size_bytes field))"
    using bt by (simp add: readFieldValue_def Let_def int_val_def)
next
  assume "(bt = 6 \<or> bt = 12) \<and> getUint32 bytes (ToIndex offset) le = Inr 0xFFFFFFFF"
  then show "readFieldValue bytes field le offset = Inr (Null, advance offset (size_bytes field))"
    using bt by (auto simp: readFieldValue_def Let_def int_val_def)
next
  assume "13 < bt"
  then show "readFieldValue bytes field le offset = Inr (Null, advance offset (size_bytes field))"
    using bt by (simp add: readFieldValue_def Let_def)
next
  fix v offset' assume "readFieldValue bytes field le offset = Inr (v, offset')"
  then show "offset' = advance offset (size_bytes field)" by (rule readFieldValue_offset)
next
  fix i n assume "offset = Some i \<and> size_bytes field = Some n"
  then show "advance offset (size_bytes field) = Some (i + unat n)" by (simp add: advance_def)
next
  fix e assume e: "readFieldValue bytes field le offset = Inl e"
  from readFieldValue_error [OF e] show "e = RangeError" by simp
  from readFieldValue_error [OF e] show "length bytes < ToIndex offset + 8" by simp
  from e bt show "bt \<in> {1, 3, 4, 5, 6, 8, 9, 11, 12}"
    by (auto simp: readFieldValue_def Let_def split: if_splits)
qed


lemma low5_86: "unat (ToInt32 (Some (0x86::byte)) AND 0x1F) = 6"
  by (simp add: ToInt32_def)

lemma low5_1E: "unat (ToInt32 (Some (0x1E::byte)) AND 0x1F) = 30"
  by (simp add: ToInt32_def)

lemma sentinel_u32: "getUint32 [0xFF, 0xFF, 0xFF, 0xFF, 0x7F] 0 True = Inr 0xFFFFFFFF"
  by (simp add: getUint_def view_bytes_def be_value_def)


theorem readFieldValue_sentinel_witness:
  "readFieldValue [0xFF, 0xFF, 0xFF, 0xFF, 0x7F]
     \<lparr>fieldDefNum = Some 92, size_bytes = Some 4, baseType = Some 0x86\<rparr> True (Some 0) =
     Inr (Null, Some 4) \<and>
   readFieldValue [0xFF, 0xFF, 0xFF, 0xFF, 0x7F]
     \<lparr>fieldDefNum = Some 92, size_bytes = Some 1, baseType = Some 0x86\<rparr> True (Some 0) =
     Inr (Null, Some 1) \<and>
   readFieldValue [0xFF, 0xFF, 0xFF, 0xFF, 0x7F]
     \<lparr>fieldDefNum = Some 92, size_bytes = Some 3, baseType = Some 0x1E\<rparr> True (Some 2) =
     Inr (Null, Some 5)"
proof (intro conjI)
  note u32 = conjunct2 [THEN conjunct2, THEN conjunct2, THEN conjunct2, THEN conjunct2,
      THEN conjunct2, THEN conjunct1, rule_format]
  note unrecognized = conjunct2 [THEN conjunct2, THEN conjunct2, THEN conjunct2, THEN conjunct2,
      THEN conjunct2, THEN conjunct2, THEN conjunct1, rule_format]
  have six: "6 = unat (ToInt32 (Some (0x86::byte)) AND 0x1F)" by (simp add: ToInt32_def)
  have thirty: "30 = unat (ToInt32 (Some (0x1E::byte)) AND 0x1F)" by (simp add: ToInt32_def)
  have raw: "getUint32 [0xFF, 0xFF, 0xFF, 0xFF, 0x7F] (ToIndex (Some 0)) True = Inr 0xFFFFFFFF"
    by (simp add: getUint_def view_bytes_def be_value_def ToIndex_def)
  show "readFieldValue [0xFF, 0xFF, 0xFF, 0xFF, 0x7F]
     \<lparr>fieldDefNum = Some 92, size_bytes = Some 4, baseType = Some 0x86\<rparr> True (Some 0) =
     Inr (Null, Some 4)"
    using readFieldValue_sentinel [where bt = 6 and field =
        "\<lparr>fieldDefNum = Some 92, size_bytes = Some 4, baseType = Some 0x86\<rparr>" and bytes =
        "[0xFF, 0xFF, 0xFF, 0xFF, 0x7F]" and offset = "Some 0" and le = True, THEN u32] six raw
    by (simp add: advance_def)
  show "readFieldValue [0xFF, 0xFF, 0xFF, 0xFF, 0x7F]
     \<lparr>fieldDefNum = Some 92, size_bytes = Some 1, baseType = Some 0x86\<rparr> True (Some 0) =
     Inr (Null, Some 1)"
    using readFieldValue_sentinel [where bt = 6 and field =
        "\<lparr>fieldDefNum = Some 92, size_bytes = Some 1, baseType = Some 0x86\<rparr>" and bytes =
        "[0xFF, 0xFF, 0xFF, 0xFF, 0x7F]" and offset = "Some 0" and le = True, THEN u32] six raw
    by (simp add: advance_def)
  show "readFieldValue [0xFF, 0xFF, 0xFF, 0xFF, 0x7F]
     \<lparr>fieldDefNum = Some 92, size_bytes = Some 3, baseType = Some 0x1E\<rparr> True (Some 2) =
     Inr (Null, Some 5)"
    using readFieldValue_sentinel [where bt = 30 and field =
        "\<lparr>fieldDefNum = Some 92, size_bytes = Some 3, baseType = Some 0x1E\<rparr>" and bytes =
        "[0xFF, 0xFF, 0xFF, 0xFF, 0x7F]" and offset = "Some 2" and le = True, THEN unrecognized]
      thirty
    by (simp add: advance_def)
qed

section \<open>The record loop\<close>

lemma readFields_error:
  "readFields bytes le fs result offset = Inl e \<Longrightarrow> e = RangeError"
  by (induction fs arbitrary: result offset)
     (auto split: sum.splits dest: readFieldValue_error)

lemma readDataMessage_error:
  "readDataMessage bytes d offset = Inl e \<Longrightarrow> e = RangeError"
  by (auto simp: readDataMessage_def split: sum.splits dest: readFields_error)

lemma readDefinition_error:
  "readDefinition bytes dev offset = Inl e \<Longrightarrow> e = RangeError"
  by (auto simp: readDefinition_def Let_def split: sum.splits prod.splits dest: getUint_error)

lemma parseRecords_error:
  "parseRecords bytes endOfData offset definitions messages = Inl e \<Longrightarrow> e = RangeError"
proof (induction bytes endOfData offset definitions messages rule: parseRecords.induct)
  case (1 bytes endOfData offset definitions messages)
  note eq = parseRecords.simps [of bytes endOfData offset definitions messages]
  from "1.prems" [unfolded eq] "1.IH" show ?case
    by (auto simp: Let_def fun_upd_def split: if_splits option.splits sum.splits prod.splits
        dest: readDataMessage_error readDefinition_error)
qed

lemma parseRecords_end:
  "\<not> offset < endOfData \<Longrightarrow>
   parseRecords bytes endOfData offset definitions messages = Inr messages"
  by (subst parseRecords.simps) simp

text \<open>
  Claim C5. When the record loop reads a record header with bits 6 and 7 clear whose
  local message type (bits 0 to 3) has no definition stored, it stops and the decoder
  returns the messages collected so far, in their order, without an error.
\<close>

theorem data_record_without_definition:
  "offset < endOfData \<and> recordHeader = ToInt32 (byte_at bytes offset) \<and>
   recordHeader AND 0x80 = 0 \<and> recordHeader AND 0x40 = 0 \<and>
   definitions (unat (recordHeader AND 0x0F)) = None \<longrightarrow>
   parseRecords bytes endOfData offset definitions messages = Inr messages"
proof (intro impI, elim conjE)
  assume "offset < endOfData" "recordHeader = ToInt32 (byte_at bytes offset)"
    "recordHeader AND 0x80 = 0" "recordHeader AND 0x40 = 0"
    "definitions (unat (recordHeader AND 0x0F)) = None"
  then show "parseRecords bytes endOfData offset definitions messages = Inr messages"
    by (subst parseRecords.simps) (simp add: Let_def)
qed

theorem data_record_without_definition_witness:
  "parseRecords [0x05, 0x01, 0x02] 3 0 Map.empty [\<lparr>mesgNum = 20, props = Map.empty\<rparr>] =
     Inr [\<lparr>mesgNum = 20, props = Map.empty\<rparr>]"
  using data_record_without_definition [where bytes = "[0x05, 0x01, 0x02]" and endOfData = 3
      and offset = 0 and recordHeader = 5 and definitions = Map.empty
      and messages = "[\<lparr>mesgNum = 20, props = Map.empty\<rparr>]"]
  by (simp add: byte_at_def ToInt32_def)

text \<open>
  Claim C6. When the record loop reads a record header with bit 7 set, the local
  message type is bits 5 and 6 of the header, a number below 4, and nothing else of the
  header is used. If a definition is stored for it, one data message is read with that
  definition at the next byte and appended, and the loop goes on after the message (a
  read past the buffer raises). If none is stored, the loop goes on at the next byte
  with the messages and definitions it had.
\<close>

theorem compressed_timestamp_record:
  "offset < endOfData \<and> recordHeader = ToInt32 (byte_at bytes offset) \<and>
   recordHeader AND 0x80 \<noteq> 0 \<and> localMesgType = unat (drop_bit 5 recordHeader AND 0x3) \<longrightarrow>
   localMesgType < 4 \<and>
   parseRecords bytes endOfData offset definitions messages =
     (case definitions localMesgType of
        None \<Rightarrow> parseRecords bytes endOfData (offset + 1) definitions messages
      | Some def \<Rightarrow>
          (case readDataMessage bytes def (Some (offset + 1)) of
             Inl e \<Rightarrow> Inl e
           | Inr (msg, None) \<Rightarrow> Inr (messages @ [msg])
           | Inr (msg, Some offset') \<Rightarrow>
               parseRecords bytes endOfData offset' definitions (messages @ [msg])))"
proof (intro impI conjI)
  assume h: "offset < endOfData \<and> recordHeader = ToInt32 (byte_at bytes offset) \<and>
   recordHeader AND 0x80 \<noteq> 0 \<and> localMesgType = unat (drop_bit 5 recordHeader AND 0x3)"
  have "unat (drop_bit 5 recordHeader AND 0x3) \<le> unat (3 :: byte)"
    by (rule word_and_le1 [THEN word_le_nat_alt [THEN iffD1]])
  with h show "localMesgType < 4" by simp
  from h have "offset < endOfData" "ToInt32 (byte_at bytes offset) AND 0x80 \<noteq> 0"
    "localMesgType = unat (drop_bit 5 (ToInt32 (byte_at bytes offset)) AND 0x3)"
    by auto
  then show "parseRecords bytes endOfData offset definitions messages =
     (case definitions localMesgType of
        None \<Rightarrow> parseRecords bytes endOfData (offset + 1) definitions messages
      | Some def \<Rightarrow>
          (case readDataMessage bytes def (Some (offset + 1)) of
             Inl e \<Rightarrow> Inl e
           | Inr (msg, None) \<Rightarrow> Inr (messages @ [msg])
           | Inr (msg, Some offset') \<Rightarrow>
               parseRecords bytes endOfData offset' definitions (messages @ [msg])))"
    by (subst parseRecords.simps) (simp add: Let_def cong: option.case_cong)
qed


theorem compressed_timestamp_record_witness:
  "parseRecords [0xA5, 0x05] 2 0 Map.empty [] = parseRecords [0xA5, 0x05] 2 1 Map.empty [] \<and>
   parseRecords [0xBF, 0x15] 2 0
     [1 \<mapsto> \<lparr>globalMesgNum = 20,
            def_fields = [\<lparr>fieldDefNum = Some 13, size_bytes = Some 1, baseType = Some 2\<rparr>],
            devFields = [], littleEndian = True\<rparr>] [] =
   Inr [\<lparr>mesgNum = 20, props = [Some 13 \<mapsto> Num (Fin 21)]\<rparr>]"
proof (intro conjI)
  have k1: "unat (drop_bit 5 (0xA5 :: byte) AND 0x3) = 1" by simp
  have k2: "unat (drop_bit 5 (0xBF :: byte) AND 0x3) = 1" by simp
  show "parseRecords [0xA5, 0x05] 2 0 Map.empty [] = parseRecords [0xA5, 0x05] 2 1 Map.empty []"
    using compressed_timestamp_record [where bytes = "[0xA5, 0x05]" and endOfData = 2
        and offset = 0 and recordHeader = "0xA5" and localMesgType = 1
        and definitions = Map.empty and messages = "[]"]
    by (simp add: byte_at_def ToInt32_def k1)
  let ?d = "\<lparr>globalMesgNum = 20,
            def_fields = [\<lparr>fieldDefNum = Some 13, size_bytes = Some 1, baseType = Some 2\<rparr>],
            devFields = [], littleEndian = True\<rparr>"
  have msg: "readDataMessage [0xBF, 0x15] ?d (Some (Suc 0)) =
      Inr (\<lparr>mesgNum = 20, props = [Some 13 \<mapsto> Num (Fin 21)]\<rparr>, Some 2)"
    by (simp add: readDataMessage_def readFieldValue_def ToInt32_def byte_at_offset_def
        byte_at_def int_val_def advance_def)
  show "parseRecords [0xBF, 0x15] 2 0 [1 \<mapsto> ?d] [] =
      Inr [\<lparr>mesgNum = 20, props = [Some 13 \<mapsto> Num (Fin 21)]\<rparr>]"
    using compressed_timestamp_record [where bytes = "[0xBF, 0x15]" and endOfData = 2
        and offset = 0 and recordHeader = "0xBF" and localMesgType = 1
        and definitions = "[1 \<mapsto> ?d]" and messages = "[]"]
    by (simp add: byte_at_def ToInt32_def k2 msg parseRecords_end)
qed

section \<open>The file header\<close>

lemma of_char_fromCharCode:
  "(of_char (fromCharCode c) :: nat) = (case c of None \<Rightarrow> 0 | Some b \<Rightarrow> unat b)"
proof (cases c)
  case None
  then show ?thesis by (simp add: fromCharCode_def)
next
  case (Some b)
  have "unat b < 256" using unsigned_less [of b, where 'a = nat] by simp
  with Some show ?thesis by (simp add: fromCharCode_def)
qed

lemma fromCharCode_eq:
  "(fromCharCode c = ch) = ((case c of None \<Rightarrow> 0 | Some b \<Rightarrow> unat b) = (of_char ch :: nat))"
  by (simp only: of_char_fromCharCode [symmetric] of_char_eq_iff)

lemma unat_byte_eq: "n < 256 \<Longrightarrow> (unat (b::byte) = n) = (b = of_nat n)"
proof
  assume "unat b = n"
  then have "of_nat (unat b) = (of_nat n :: byte)" by simp
  then show "b = of_nat n" by simp
next
  assume "n < 256" "b = of_nat n"
  then show "unat b = n" by (simp add: unat_of_nat)
qed

lemma dataType_eq:
  "(map (\<lambda>i. fromCharCode (byte_at bytes i)) [8, 9, 10, 11] = ''.FIT'') =
   (map (byte_at bytes) [8, 9, 10, 11] = [Some 0x2E, Some 0x46, Some 0x49, Some 0x54])"
  by (auto simp: fromCharCode_eq unat_byte_eq split: option.splits)


lemma parseFIT_tagged:
  assumes "8 \<le> length bytes"
    and "map (byte_at bytes) [8, 9, 10, 11] = [Some 0x2E, Some 0x46, Some 0x49, Some 0x54]"
    and "getUint32 bytes 4 True = Inr dataSize"
  shows "parseFIT bytes =
         parseRecords bytes (unat (bytes ! 0) + dataSize) (unat (bytes ! 0)) Map.empty []"
proof -
  from assms(1) obtain profileVersion where "getUint16 bytes 2 True = Inr profileVersion"
    using getUint_ok [of 2 2 bytes True] by auto
  moreover from assms(1) have "byte_at bytes 0 = Some (bytes ! 0)" by (auto simp: byte_at_def)
  ultimately show ?thesis
    using assms(2,3) dataType_eq [of bytes] by (simp add: parseFIT_def)
qed

text \<open>
  Claim C4, amended. A buffer shorter than 8 bytes fails in the header reads with a
  RangeError, before the tag is compared. For every buffer of at least 8 bytes, the
  decoder fails with the format error exactly when bytes 8 to 11 are not the ASCII
  codes of \<open>.FIT\<close>; the failure carries no message. When they are, the decoder's result
  is that of the record loop started at the header length, with the end of data at
  the header length plus the data size, no definition and no message.
\<close>

theorem header_tag:
  "(length bytes < 8 \<longrightarrow> parseFIT bytes = Inl RangeError) \<and>
   (8 \<le> length bytes \<longrightarrow>
      ((parseFIT bytes = Inl NotValidFIT) =
       (map (byte_at bytes) [8, 9, 10, 11] \<noteq> [Some 0x2E, Some 0x46, Some 0x49, Some 0x54])) \<and>
      (map (byte_at bytes) [8, 9, 10, 11] = [Some 0x2E, Some 0x46, Some 0x49, Some 0x54] \<longrightarrow>
         (\<exists>headerSize dataSize.
            byte_at bytes 0 = Some headerSize \<and> getUint32 bytes 4 True = Inr dataSize \<and>
            parseFIT bytes =
              parseRecords bytes (unat headerSize + dataSize) (unat headerSize) Map.empty [])))"
proof (intro conjI impI)
  assume short: "length bytes < 8"
  show "parseFIT bytes = Inl RangeError"
  proof (cases "getUint16 bytes 2 True")
    case (Inl e)
    with getUint_error [OF Inl] show ?thesis by (simp add: parseFIT_def)
  next
    case (Inr v)
    from short have "getUint32 bytes 4 True = Inl RangeError"
      by (simp add: getUint_def view_bytes_def)
    with Inr show ?thesis by (simp add: parseFIT_def)
  qed
next
  assume long: "8 \<le> length bytes"
  then obtain profileVersion dataSize where
    pv: "getUint16 bytes 2 True = Inr profileVersion" and
    ds: "getUint32 bytes 4 True = Inr dataSize"
    using getUint_ok [of 2 2 bytes True] getUint_ok [of 4 4 bytes True] by auto
  from long have hs: "byte_at bytes 0 = Some (bytes ! 0)" by (auto simp: byte_at_def)
  have tagged: "parseFIT bytes =
      parseRecords bytes (unat (bytes ! 0) + dataSize) (unat (bytes ! 0)) Map.empty []"
    if "map (byte_at bytes) [8, 9, 10, 11] = [Some 0x2E, Some 0x46, Some 0x49, Some 0x54]"
    using that pv ds hs dataType_eq [of bytes] by (simp add: parseFIT_def)
  have untagged: "parseFIT bytes = Inl NotValidFIT"
    if "map (byte_at bytes) [8, 9, 10, 11] \<noteq> [Some 0x2E, Some 0x46, Some 0x49, Some 0x54]"
    using that pv ds dataType_eq [of bytes] by (simp add: parseFIT_def)
  show "(parseFIT bytes = Inl NotValidFIT) =
       (map (byte_at bytes) [8, 9, 10, 11] \<noteq> [Some 0x2E, Some 0x46, Some 0x49, Some 0x54])"
  proof
    assume err: "parseFIT bytes = Inl NotValidFIT"
    show "map (byte_at bytes) [8, 9, 10, 11] \<noteq> [Some 0x2E, Some 0x46, Some 0x49, Some 0x54]"
    proof
      assume "map (byte_at bytes) [8, 9, 10, 11] = [Some 0x2E, Some 0x46, Some 0x49, Some 0x54]"
      from tagged [OF this] err
      have "parseRecords bytes (unat (bytes ! 0) + dataSize) (unat (bytes ! 0)) Map.empty [] =
          Inl NotValidFIT" by simp
      from parseRecords_error [OF this] show False by simp
    qed
  next
    assume "map (byte_at bytes) [8, 9, 10, 11] \<noteq> [Some 0x2E, Some 0x46, Some 0x49, Some 0x54]"
    then show "parseFIT bytes = Inl NotValidFIT" by (rule untagged)
  qed
  show "\<exists>headerSize dataSize.
            byte_at bytes 0 = Some headerSize \<and> getUint32 bytes 4 True = Inr dataSize \<and>
            parseFIT bytes =
              parseRecords bytes (unat headerSize + dataSize) (unat headerSize) Map.empty []"
    if "map (byte_at bytes) [8, 9, 10, 11] = [Some 0x2E, Some 0x46, Some 0x49, Some 0x54]"
    using tagged [OF that] hs ds by blast
qed

text \<open>
  A header tagged \<open>XFIT\<close> fails with the format error; a 14-byte header tagged
  \<open>.FIT\<close> with no data decodes to no message.
\<close>

theorem header_tag_witness:
  "parseFIT [14, 0x10, 0, 0, 0, 0, 0, 0, 0x58, 0x46, 0x49, 0x54, 0, 0] = Inl NotValidFIT \<and>
   parseFIT [14, 0x10, 0, 0, 0, 0, 0, 0, 0x2E, 0x46, 0x49, 0x54, 0, 0] = Inr [] \<and>
   parseFIT [14, 0x10, 0] = Inl RangeError"
proof (intro conjI)
  show "parseFIT [14, 0x10, 0, 0, 0, 0, 0, 0, 0x58, 0x46, 0x49, 0x54, 0, 0] = Inl NotValidFIT"
    using header_tag [of "[14, 0x10, 0, 0, 0, 0, 0, 0, 0x58, 0x46, 0x49, 0x54, 0, 0]",
        THEN conjunct2, rule_format, THEN conjunct1]
    by (simp add: byte_at_def)
  have "\<exists>headerSize dataSize.
      byte_at [14, 0x10, 0, 0, 0, 0, 0, 0, 0x2E, 0x46, 0x49, 0x54, 0, 0] 0 = Some headerSize \<and>
      getUint32 [14, 0x10, 0, 0, 0, 0, 0, 0, 0x2E, 0x46, 0x49, 0x54, 0, 0] 4 True = Inr dataSize \<and>
      parseFIT [14, 0x10, 0, 0, 0, 0, 0, 0, 0x2E, 0x46, 0x49, 0x54, 0, 0] =
        parseRecords [14, 0x10, 0, 0, 0, 0, 0, 0, 0x2E, 0x46, 0x49, 0x54, 0, 0]
          (unat headerSize + dataSize) (unat headerSize) Map.empty []"
    using header_tag [of "[14, 0x10, 0, 0, 0, 0, 0, 0, 0x2E, 0x46, 0x49, 0x54, 0, 0]",
        THEN conjunct2, rule_format, THEN conjunct2, rule_format]
    by (simp add: byte_at_def)
  then show "parseFIT [14, 0x10, 0, 0, 0, 0, 0, 0, 0x2E, 0x46, 0x49, 0x54, 0, 0] = Inr []"
    by (auto simp: byte_at_def getUint_def view_bytes_def be_value_def parseRecords_end)
  show "parseFIT [14, 0x10, 0] = Inl RangeError"
    using header_tag [of "[14, 0x10, 0]", THEN conjunct1] by simp
qed

text \<open>
  Claim C4 as stated fails on a buffer of 5 bytes: bytes 8 to 11 are not \<open>.FIT\<close>, yet
  the error is not the format error but the RangeError of \<open>getUint32(4, true)\<close>.
\<close>

theorem header_tag_counterexample:
  "map (byte_at [14, 0x10, 0, 0, 30]) [8, 9, 10, 11] \<noteq>
     [Some 0x2E, Some 0x46, Some 0x49, Some 0x54] \<and>
   parseFIT [14, 0x10, 0, 0, 30] \<noteq> Inl NotValidFIT \<and>
   parseFIT [14, 0x10, 0, 0, 30] = Inl RangeError"
  by (simp add: parseFIT_def getUint_def view_bytes_def byte_at_def)

section \<open>Running the record loop on a concrete buffer\<close>

lemma parseRecords_definition:
  assumes "offset < endOfData" and "h = ToInt32 (byte_at bytes offset)"
    and "h AND 0x80 = 0" and "h AND 0x40 \<noteq> 0"
    and "readDefinition bytes (h AND 0x20 \<noteq> 0) (offset + 1) = Inr (d, offset')"
  shows "parseRecords bytes endOfData offset definitions messages =
         parseRecords bytes endOfData offset' (definitions(unat (h AND 0x0F) \<mapsto> d)) messages"
  using assms by (subst parseRecords.simps) (simp add: Let_def)

lemma parseRecords_data:
  assumes "offset < endOfData" and "h = ToInt32 (byte_at bytes offset)"
    and "h AND 0x80 = 0" and "h AND 0x40 = 0"
    and "definitions (unat (h AND 0x0F)) = Some d"
    and "readDataMessage bytes d (Some (offset + 1)) = Inr (msg, Some offset')"
  shows "parseRecords bytes endOfData offset definitions messages =
         parseRecords bytes endOfData offset' definitions (messages @ [msg])"
  using assms by (subst parseRecords.simps) (simp add: Let_def)

lemma readFieldDefs_pos:
  "0 < n \<Longrightarrow>
   readFieldDefs bytes offset n =
     (let (rest, offset') = readFieldDefs bytes (offset + 3) (n - 1)
      in (\<lparr>fieldDefNum = byte_at bytes offset,
           size_bytes = byte_at bytes (offset + 1),
           baseType = byte_at bytes (offset + 2)\<rparr> # rest, offset'))"
  by (cases n) simp_all

lemma readFields_step:
  "readFieldValue bytes field le offset = Inr (val, offset') \<Longrightarrow>
   readFields bytes le (field # rest) result offset =
   readFields bytes le rest (result(fieldDefNum field \<mapsto> val)) offset'"
  by simp

text \<open>
  A file with a 14-byte header, the definition of local type 0 as a session message
  (global number 18) with the little-endian field 2 (start time) of type uint32, and
  one data record with start time 10000.
\<close>

definition session_only :: "byte list" where
  "session_only =
     [14, 0x10, 0, 0, 14, 0, 0, 0, 0x2E, 0x46, 0x49, 0x54, 0, 0,
      0x40, 0, 0, 18, 0, 1, 2, 4, 0x86,
      0x00, 0x10, 0x27, 0, 0]"

definition session_def :: msg_def where
  "session_def = \<lparr>globalMesgNum = 18,
     def_fields = [\<lparr>fieldDefNum = Some 2, size_bytes = Some 4, baseType = Some 0x86\<rparr>],
     devFields = [], littleEndian = True\<rparr>"

definition session_msg :: message where
  "session_msg = \<lparr>mesgNum = 18, props = [Some 2 \<mapsto> Num (Fin 10000)]\<rparr>"

lemma session_only_definition:
  "readDefinition session_only False 15 = Inr (session_def, 23)"
  by (simp add: readDefinition_def session_only_def session_def_def byte_at_def getUint_def
      view_bytes_def be_value_def loop_count_def readFieldDefs_pos)


lemma session_only_data:
  "readDataMessage session_only session_def (Some 24) = Inr (session_msg, Some 28)"
  by (simp add: readDataMessage_def session_only_def session_def_def session_msg_def
      readFieldValue_def ToInt32_def ToIndex_def getUint_def view_bytes_def be_value_def
      int_val_def advance_def)

lemma parseFIT_session_only: "parseFIT session_only = Inr [session_msg]"
proof -
  have len: "length session_only = 28" by (simp add: session_only_def)
  have h0: "ToInt32 (byte_at session_only 14) = 0x40" "ToInt32 (byte_at session_only 23) = 0"
    by (simp_all add: session_only_def byte_at_def ToInt32_def)
  have "parseFIT session_only = parseRecords session_only 28 14 Map.empty []"
    using parseFIT_tagged [of session_only 14]
    by (simp add: session_only_def byte_at_def getUint_def view_bytes_def be_value_def)
  also have "\<dots> = parseRecords session_only 28 23 [0 \<mapsto> session_def] []"
    using parseRecords_definition [where bytes = session_only and offset = 14 and h = "0x40"
        and d = session_def and offset' = 23 and endOfData = 28
        and definitions = Map.empty and messages = "[]"]
    by (simp add: h0 session_only_definition)
  also have "\<dots> = parseRecords session_only 28 28 [0 \<mapsto> session_def] [session_msg]"
    using parseRecords_data [where bytes = session_only and offset = 23 and h = 0
        and d = session_def and offset' = 28 and endOfData = 28 and msg = session_msg
        and definitions = "[0 \<mapsto> session_def]" and messages = "[]"]
    by (simp add: h0 session_only_data)
  also have "\<dots> = Inr [session_msg]" by (simp add: parseRecords_end)
  finally show ?thesis .
qed

text \<open>
  The file of two records: a 14-byte header, the definition of local type 0 as a record
  message (global number 20) with the little-endian uint32 fields 253 (timestamp) and
  92 (depth), and two data records, (1000, 5000) and (1001, 4000).
\<close>

definition two_records :: "byte list" where
  "two_records =
     [14, 0x10, 0, 0, 30, 0, 0, 0, 0x2E, 0x46, 0x49, 0x54, 0, 0,
      0x40, 0, 0, 20, 0, 2, 253, 4, 0x86, 92, 4, 0x86,
      0x00, 0xE8, 0x03, 0, 0, 0x88, 0x13, 0, 0,
      0x00, 0xE9, 0x03, 0, 0, 0xA0, 0x0F, 0, 0]"

definition record_def :: msg_def where
  "record_def = \<lparr>globalMesgNum = 20,
     def_fields = [\<lparr>fieldDefNum = Some 253, size_bytes = Some 4, baseType = Some 0x86\<rparr>,
                   \<lparr>fieldDefNum = Some 92, size_bytes = Some 4, baseType = Some 0x86\<rparr>],
     devFields = [], littleEndian = True\<rparr>"

definition record_1 :: message where
  "record_1 = \<lparr>mesgNum = 20, props = [Some 253 \<mapsto> Num (Fin 1000), Some 92 \<mapsto> Num (Fin 5000)]\<rparr>"

definition record_2 :: message where
  "record_2 = \<lparr>mesgNum = 20, props = [Some 253 \<mapsto> Num (Fin 1001), Some 92 \<mapsto> Num (Fin 4000)]\<rparr>"

lemma two_records_definition:
  "readDefinition two_records False 15 = Inr (record_def, 26)"
  by (simp add: readDefinition_def two_records_def record_def_def byte_at_def getUint_def
      view_bytes_def be_value_def loop_count_def readFieldDefs_pos)

lemma two_records_data_1:
  "readDataMessage two_records record_def (Some 27) = Inr (record_1, Some 35)"
  by (simp add: readDataMessage_def two_records_def record_def_def record_1_def
      readFieldValue_def ToInt32_def ToIndex_def getUint_def view_bytes_def be_value_def
      int_val_def advance_def)

lemma two_records_data_2:
  "readDataMessage two_records record_def (Some 36) = Inr (record_2, Some 44)"
  by (simp add: readDataMessage_def two_records_def record_def_def record_2_def
      readFieldValue_def ToInt32_def ToIndex_def getUint_def view_bytes_def be_value_def
      int_val_def advance_def)

lemma parseFIT_two_records: "parseFIT two_records = Inr [record_1, record_2]"
proof -
  have h: "ToInt32 (byte_at two_records 14) = 0x40" "ToInt32 (byte_at two_records 26) = 0"
    "ToInt32 (byte_at two_records 35) = 0"
    by (simp_all add: two_records_def byte_at_def ToInt32_def)
  have "parseFIT two_records = parseRecords two_records 44 14 Map.empty []"
    using parseFIT_tagged [of two_records 30]
    by (simp add: two_records_def byte_at_def getUint_def view_bytes_def be_value_def)
  also have "\<dots> = parseRecords two_records 44 26 [0 \<mapsto> record_def] []"
    using parseRecords_definition [where bytes = two_records and offset = 14 and h = "0x40"
        and d = record_def and offset' = 26 and endOfData = 44
        and definitions = Map.empty and messages = "[]"]
    by (simp add: h two_records_definition)
  also have "\<dots> = parseRecords two_records 44 35 [0 \<mapsto> record_def] [record_1]"
    using parseRecords_data [where bytes = two_records and offset = 26 and h = 0
        and d = record_def and offset' = 35 and endOfData = 44 and msg = record_1
        and definitions = "[0 \<mapsto> record_def]" and messages = "[]"]
    by (simp add: h two_records_data_1)
  also have "\<dots> = parseRecords two_records 44 44 [0 \<mapsto> record_def] [record_1, record_2]"
    using parseRecords_data [where bytes = two_records and offset = 35 and h = 0
        and d = record_def and offset' = 44 and endOfData = 44 and msg = record_2
        and definitions = "[0 \<mapsto> record_def]" and messages = "[record_1]"]
    by (simp add: h two_records_data_2)
  also have "\<dots> = Inr [record_1, record_2]" by (simp add: parseRecords_end)
  finally show ?thesis .
qed

section \<open>Extraction\<close>

lemma spread_cases:
  "spread P f xs = Inl e \<Longrightarrow> e = RangeError \<and> max_arguments P < length xs"
  "length xs \<le> max_arguments P \<Longrightarrow> spread P f xs = Inr (f xs)"
  by (auto simp: spread_def split: if_splits)

lemma extractDive_no_records:
  "filter (\<lambda>m. mesgNum m = 20) messages = [] \<Longrightarrow>
   extractDive P messages = Inl NoDiveRecords"
  by (simp add: extractDive_def MESG_RECORD_def)

text \<open>The three values of a dive that a spread call computes, as the source orders them.\<close>

lemma extractDive_unfold:
  assumes "filter (\<lambda>m. mesgNum m = 20) messages = records" and "records \<noteq> []"
    and "ss = backfill P 1 (map (makeSample P (get_prop (records ! 0) F_TIMESTAMP)) records)"
    and "session = first_or_empty (filter (\<lambda>m. mesgNum m = 18) messages)"
    and "summary = first_or_empty (filter (\<lambda>m. mesgNum m = 268) messages)"
    and "temps = filter (\<lambda>t. \<not> eqNull t) (map temperature ss)"
  shows "extractDive P messages =
    (case (if ToBoolean (summary 3) then Inr (num_div P (ToNumber P (summary 3)) (Fin 1000))
           else spread P Math_max (map depth_or_zero ss)) of
       Inl e \<Rightarrow> Inl e
     | Inr deepest \<Rightarrow>
        (case (if length temps \<noteq> 0
               then spread P (\<lambda>ts. Some (Math_min (map (ToNumber P) ts))) temps
               else Inr None) of
           Inl e \<Rightarrow> Inl e
         | Inr coldest \<Rightarrow>
            (case (if length temps \<noteq> 0
                   then spread P (\<lambda>ts. Some (Math_max (map (ToNumber P) ts))) temps
                   else Inr None) of
               Inl e \<Rightarrow> Inl e
             | Inr warmest \<Rightarrow>
                Inr \<lparr>startDate = garminTimestampToDate P
                       (if ToBoolean (session 2) then session 2 else get_prop (records ! 0) 253),
                     totalTime =
                       (if ToBoolean (session 7)
                        then num_div P (ToNumber P (session 7)) (Fin 1000)
                        else elapsed (ss ! (length ss - 1))),
                     maxDepth = deepest,
                     avgDepth =
                       (if ToBoolean (summary 2)
                        then Some (num_div P (ToNumber P (summary 2)) (Fin 1000))
                        else None),
                     minTemp = coldest, maxTemp = warmest, samples = ss\<rparr>)))"
  unfolding extractDive_def Let_def MESG_RECORD_def MESG_SESSION_def MESG_DIVE_SUMMARY_def
    F_TIMESTAMP_def SF_START_TIME_def SF_TOTAL_ELAPSED_TIME_def DS_MAX_DEPTH_def DS_AVG_DEPTH_def
    assms(1) assms(3-6)
  using assms(2) by (simp only: length_0_conv if_False)


lemma extractDive_error:
  assumes "extractDive P messages = Inl e"
  shows "(e = NoDiveRecords \<and> filter (\<lambda>m. mesgNum m = 20) messages = []) \<or>
         (e = RangeError \<and> filter (\<lambda>m. mesgNum m = 20) messages \<noteq> [] \<and>
          max_arguments P < length (filter (\<lambda>m. mesgNum m = 20) messages))"
proof (cases "filter (\<lambda>m. mesgNum m = 20) messages = []")
  case True
  with assms extractDive_no_records [OF True, of P] show ?thesis by simp
next
  case False
  define records where "records = filter (\<lambda>m. mesgNum m = 20) messages"
  define ss where
    "ss = backfill P 1 (map (makeSample P (get_prop (records ! 0) F_TIMESTAMP)) records)"
  define temps where "temps = filter (\<lambda>t. \<not> eqNull t) (map temperature ss)"
  define summary where "summary = first_or_empty (filter (\<lambda>m. mesgNum m = 268) messages)"
  define A where "A = (if ToBoolean (summary 3)
      then Inr (num_div P (ToNumber P (summary 3)) (Fin 1000))
      else spread P Math_max (map depth_or_zero ss))"
  define B where "B = (if length temps \<noteq> 0
      then spread P (\<lambda>ts. Some (Math_min (map (ToNumber P) ts))) temps else Inr None)"
  define C where "C = (if length temps \<noteq> 0
      then spread P (\<lambda>ts. Some (Math_max (map (ToNumber P) ts))) temps else Inr None)"
  have len: "length ss = length records" by (simp add: ss_def)
  have "length temps \<le> length (map temperature ss)" unfolding temps_def by (rule length_filter_le)
  with len have temps: "length temps \<le> length records" by simp
  have a: "x = RangeError \<and> max_arguments P < length records" if "A = Inl x" for x
    using that len by (auto simp: A_def split: if_splits dest!: spread_cases(1))
  have b: "x = RangeError \<and> max_arguments P < length records" if "B = Inl x" for x
    using that temps by (auto simp: B_def split: if_splits dest!: spread_cases(1))
  have c: "x = RangeError \<and> max_arguments P < length records" if "C = Inl x" for x
    using that temps by (auto simp: C_def split: if_splits dest!: spread_cases(1))
  from False have ne: "records \<noteq> []" by (simp add: records_def)
  note unfold = extractDive_unfold [OF records_def [symmetric] ne ss_def refl summary_def
      temps_def, folded A_def B_def C_def]
  from assms [unfolded unfold] have "e = RangeError \<and> max_arguments P < length records"
    by (cases A; cases B; cases C) (auto dest: a b c)
  with False show ?thesis by (simp add: records_def)
qed

lemma extractDive_records:
  assumes "filter (\<lambda>m. mesgNum m = 20) messages \<noteq> []"
    and "length (filter (\<lambda>m. mesgNum m = 20) messages) \<le> max_arguments P"
  shows "\<exists>d. extractDive P messages = Inr d"
proof (cases "extractDive P messages")
  case (Inl e)
  from extractDive_error [OF Inl] assms show ?thesis by auto
next
  case (Inr d)
  then show ?thesis by blast
qed

text \<open>The dive returned for a message list with at least one record.\<close>

lemma extractDive_fields:
  assumes "extractDive P messages = Inr d"
    and "records = filter (\<lambda>m. mesgNum m = 20) messages"
    and "session = first_or_empty (filter (\<lambda>m. mesgNum m = 18) messages)"
    and "summary = first_or_empty (filter (\<lambda>m. mesgNum m = 268) messages)"
  shows "records \<noteq> []"
    and "samples d =
           backfill P 1 (map (makeSample P (get_prop (records ! 0) F_TIMESTAMP)) records)"
    and "startDate d = garminTimestampToDate P
           (if ToBoolean (session 2) then session 2 else get_prop (records ! 0) 253)"
    and "totalTime d =
           (if ToBoolean (session 7) then num_div P (ToNumber P (session 7)) (Fin 1000)
            else elapsed (samples d ! (length (samples d) - 1)))"
    and "maxDepth d =
           (if ToBoolean (summary 3) then num_div P (ToNumber P (summary 3)) (Fin 1000)
            else Math_max (map depth_or_zero (samples d)))"
    and "avgDepth d =
           (if ToBoolean (summary 2)
            then Some (num_div P (ToNumber P (summary 2)) (Fin 1000)) else None)"
proof -
  show ne: "records \<noteq> []"
  proof
    assume "records = []"
    with assms(2) extractDive_no_records [of messages P] assms(1) show False by simp
  qed
  define ss where
    "ss = backfill P 1 (map (makeSample P (get_prop (records ! 0) F_TIMESTAMP)) records)"
  define temps where "temps = filter (\<lambda>t. \<not> eqNull t) (map temperature ss)"
  define A where "A = (if ToBoolean (summary 3)
      then Inr (num_div P (ToNumber P (summary 3)) (Fin 1000))
      else spread P Math_max (map depth_or_zero ss))"
  define B where "B = (if length temps \<noteq> 0
      then spread P (\<lambda>ts. Some (Math_min (map (ToNumber P) ts))) temps else Inr None)"
  define C where "C = (if length temps \<noteq> 0
      then spread P (\<lambda>ts. Some (Math_max (map (ToNumber P) ts))) temps else Inr None)"
  note unfold = extractDive_unfold [OF assms(2) [symmetric] ne ss_def assms(3) assms(4)
      temps_def, folded A_def B_def C_def]
  from assms(1) [unfolded unfold] obtain deepest coldest warmest where
    A: "A = Inr deepest" and
    d: "d = \<lparr>startDate = garminTimestampToDate P
                       (if ToBoolean (session 2) then session 2 else get_prop (records ! 0) 253),
            totalTime =
              (if ToBoolean (session 7)
               then num_div P (ToNumber P (session 7)) (Fin 1000)
               else elapsed (ss ! (length ss - 1))),
            maxDepth = deepest,
            avgDepth =
              (if ToBoolean (summary 2)
               then Some (num_div P (ToNumber P (summary 2)) (Fin 1000))
               else None),
            minTemp = coldest, maxTemp = warmest, samples = ss\<rparr>"
    by (cases A; cases B; cases C) auto
  from d show "samples d =
      backfill P 1 (map (makeSample P (get_prop (records ! 0) F_TIMESTAMP)) records)"
    by (simp add: ss_def)
  from d show "startDate d = garminTimestampToDate P
           (if ToBoolean (session 2) then session 2 else get_prop (records ! 0) 253)"
    by simp
  from d show "totalTime d =
           (if ToBoolean (session 7) then num_div P (ToNumber P (session 7)) (Fin 1000)
            else elapsed (samples d ! (length (samples d) - 1)))"
    by simp
  from d A show "maxDepth d =
           (if ToBoolean (summary 3) then num_div P (ToNumber P (summary 3)) (Fin 1000)
            else Math_max (map depth_or_zero (samples d)))"
    by (auto simp: A_def spread_def split: if_splits)
  from d show "avgDepth d =
           (if ToBoolean (summary 2)
            then Some (num_div P (ToNumber P (summary 2)) (Fin 1000)) else None)"
    by simp
qed

lemma extractDive_samples:
  assumes "filter (\<lambda>m. mesgNum m = 20) messages = records" and "records \<noteq> []"
    and "extractDive P messages = Inr d"
  shows "samples d =
         backfill P 1 (map (makeSample P (get_prop (records ! 0) F_TIMESTAMP)) records)"
  using extractDive_fields(2) [OF assms(3) assms(1) [symmetric] refl refl] .


text \<open>
  Claim C3, amended. Extraction raises the error for missing records exactly when no
  message of the decoded sequence has the global message number 20. When the records
  are no more than the arguments a call can take, it raises no other error, so it
  raises exactly when there is no record; past that number the only other error is
  the RangeError of a spread call. So a buffer that decodes without error to messages
  none of which is a record fails in extraction, not in decoding, and a decoded
  sequence with a record never raises the error for missing records.
\<close>

theorem no_records_error:
  "((extractDive P messages = Inl NoDiveRecords) =
      (filter (\<lambda>m. mesgNum m = 20) messages = [])) \<and>
   (length (filter (\<lambda>m. mesgNum m = 20) messages) \<le> max_arguments P \<longrightarrow>
      ((\<exists>e. extractDive P messages = Inl e) =
       (filter (\<lambda>m. mesgNum m = 20) messages = []))) \<and>
   (\<forall>e. extractDive P messages = Inl e \<and> e \<noteq> NoDiveRecords \<longrightarrow>
      e = RangeError \<and> max_arguments P < length (filter (\<lambda>m. mesgNum m = 20) messages)) \<and>
   (parseFIT arrayBuffer = Inr messages \<and> filter (\<lambda>m. mesgNum m = 20) messages = [] \<longrightarrow>
      extractDiveFromBuffer P arrayBuffer = Inl NoDiveRecords) \<and>
   (parseFIT arrayBuffer = Inr messages \<and> filter (\<lambda>m. mesgNum m = 20) messages \<noteq> [] \<longrightarrow>
      extractDiveFromBuffer P arrayBuffer \<noteq> Inl NoDiveRecords)"
proof (intro conjI allI impI)
  show iff: "(extractDive P messages = Inl NoDiveRecords) =
      (filter (\<lambda>m. mesgNum m = 20) messages = [])"
    using extractDive_no_records [of messages P] extractDive_error [of P messages NoDiveRecords]
    by auto
  show "(\<exists>e. extractDive P messages = Inl e) = (filter (\<lambda>m. mesgNum m = 20) messages = [])"
    if "length (filter (\<lambda>m. mesgNum m = 20) messages) \<le> max_arguments P"
  proof (cases "filter (\<lambda>m. mesgNum m = 20) messages = []")
    case True
    with extractDive_no_records [OF True, of P] show ?thesis by simp
  next
    case False
    with extractDive_records [OF False that] show ?thesis by auto
  qed
  show "e = RangeError" if "extractDive P messages = Inl e \<and> e \<noteq> NoDiveRecords" for e
    using that extractDive_error [of P messages e] by auto
  show "max_arguments P < length (filter (\<lambda>m. mesgNum m = 20) messages)"
    if "extractDive P messages = Inl e \<and> e \<noteq> NoDiveRecords" for e
    using that extractDive_error [of P messages e] by auto
  show "extractDiveFromBuffer P arrayBuffer = Inl NoDiveRecords"
    if "parseFIT arrayBuffer = Inr messages \<and> filter (\<lambda>m. mesgNum m = 20) messages = []"
    using that by (simp add: extractDiveFromBuffer_def extractDive_no_records)
  show "extractDiveFromBuffer P arrayBuffer \<noteq> Inl NoDiveRecords"
    if "parseFIT arrayBuffer = Inr messages \<and> filter (\<lambda>m. mesgNum m = 20) messages \<noteq> []"
    using that iff by (simp add: extractDiveFromBuffer_def)
qed

text \<open>
  The file with a header and one session message decodes and then fails in
  extraction; a sequence with one record gives a dive.
\<close>

theorem no_records_error_witness:
  "parseFIT session_only = Inr [session_msg] \<and>
   extractDiveFromBuffer exact_platform session_only = Inl NoDiveRecords \<and>
   (\<exists>d. extractDive exact_platform [session_msg, record_1] = Inr d) \<and>
   extractDiveFromBuffer exact_platform two_records \<noteq> Inl NoDiveRecords"
proof (intro conjI)
  show "parseFIT session_only = Inr [session_msg]" by (rule parseFIT_session_only)
  show "extractDiveFromBuffer exact_platform session_only = Inl NoDiveRecords"
    using no_records_error [of exact_platform "[session_msg]" session_only,
        THEN conjunct2, THEN conjunct2, THEN conjunct2, THEN conjunct1]
    by (simp add: parseFIT_session_only session_msg_def)
  have "(\<exists>e. extractDive exact_platform [session_msg, record_1] = Inl e) =
      (filter (\<lambda>m. mesgNum m = 20) [session_msg, record_1] = [])"
    using no_records_error [of exact_platform "[session_msg, record_1]",
        THEN conjunct2, THEN conjunct1]
    by (simp add: session_msg_def record_1_def exact_platform_def)
  then show "\<exists>d. extractDive exact_platform [session_msg, record_1] = Inr d"
    by (cases "extractDive exact_platform [session_msg, record_1]")
       (simp_all add: session_msg_def record_1_def)
  show "extractDiveFromBuffer exact_platform two_records \<noteq> Inl NoDiveRecords"
    using no_records_error [of exact_platform "[record_1, record_2]" two_records,
        THEN conjunct2, THEN conjunct2, THEN conjunct2, THEN conjunct2]
    by (simp add: parseFIT_two_records record_1_def record_2_def)
qed

text \<open>
  Claim C3 as stated fails on a sequence of 500001 records, more than the arguments of
  a call, which is what a file with that many data records decodes to: it has records,
  yet extraction raises, with the RangeError of \<open>Math.max(...samples.map(...))\<close>.
\<close>

theorem no_records_error_counterexample:
  "filter (\<lambda>m. mesgNum m = 20) (replicate 500001 record_1) \<noteq> [] \<and>
   extractDive exact_platform (replicate 500001 record_1) = Inl RangeError"
proof
  have rec: "filter (\<lambda>m. mesgNum m = 20) (replicate 500001 record_1) = replicate 500001 record_1"
    by (simp add: record_1_def)
  have none: "filter (\<lambda>m. mesgNum m = 268) (replicate 500001 record_1) = []"
    by (simp add: record_1_def)
  show ne: "filter (\<lambda>m. mesgNum m = 20) (replicate 500001 record_1) \<noteq> []"
    unfolding rec by simp
  have ne': "replicate 500001 record_1 \<noteq> []" by simp
  show "extractDive exact_platform (replicate 500001 record_1) = Inl RangeError"
    by (subst extractDive_unfold [OF rec ne' refl refl refl refl])
       (simp add: none first_or_empty_def spread_def exact_platform_def)
qed

lemma backfill_nth_frame:
  assumes "j < length ss"
  shows "elapsed (backfill P i ss ! j) = elapsed (ss ! j)"
    and "depth (backfill P i ss ! j) = depth (ss ! j)"
    and "temperature (backfill P i ss ! j) = temperature (ss ! j)"
    and "ndl (backfill P i ss ! j) = ndl (ss ! j)"
    and "cns (backfill P i ss ! j) = cns (ss ! j)"
  using assms by (simp_all add: backfill_nth)

lemma backfill_nth_rate_kept:
  "j < length ss \<Longrightarrow> ascentRate (ss ! j) \<noteq> None \<Longrightarrow>
   ascentRate (backfill P i ss ! j) = ascentRate (ss ! j)"
  by (auto simp: backfill_nth fill_def split: option.splits)

lemma map_depth_or_zero_backfill:
  "map depth_or_zero (backfill P i ss) = map depth_or_zero ss"
  by (rule nth_equalityI) (simp_all add: depth_or_zero_def backfill_nth_frame)

lemma makeSample_fields [simp]:
  "elapsed (makeSample P firstTs r) =
     num_sub P (ToNumber P (get_prop r F_TIMESTAMP)) (ToNumber P firstTs)"
  "depth (makeSample P firstTs r) = scaled P (get_prop r F_DEPTH)"
  "ascentRate (makeSample P firstTs r) = scaled P (get_prop r F_ASCENT_RATE)"
  "temperature (makeSample P firstTs r) = get_prop r F_TEMPERATURE"
  "ndl (makeSample P firstTs r) = get_prop r F_NDL"
  "cns (makeSample P firstTs r) = get_prop r F_CNS"
  by (simp_all add: makeSample_def Let_def)

lemma readFieldValue_uint32:
  assumes "unat (ToInt32 (baseType field) AND 0x1F) = 6 \<or>
           unat (ToInt32 (baseType field) AND 0x1F) = 12"
    and "getUint32 bytes (ToIndex offset) le = Inr v" and "v \<noteq> 0xFFFFFFFF"
  shows "readFieldValue bytes field le offset =
         Inr (Num (Fin (real v)), advance offset (size_bytes field))"
  using assms by (auto simp: readFieldValue_def Let_def int_val_def)


lemma built_sample:
  assumes "ss = backfill P 1 (map (makeSample P (get_prop (records ! 0) F_TIMESTAMP)) records)"
    and "i < length records"
  shows "elapsed (ss ! i) =
           num_sub P (ToNumber P (get_prop (records ! i) 253))
             (ToNumber P (get_prop (records ! 0) 253)) \<and>
         depth (ss ! i) =
           (if eqNull (get_prop (records ! i) 92) then None
            else Some (num_div P (ToNumber P (get_prop (records ! i) 92)) (Fin 1000))) \<and>
         (\<not> eqNull (get_prop (records ! i) 127) \<longrightarrow>
            ascentRate (ss ! i) =
              Some (num_div P (ToNumber P (get_prop (records ! i) 127)) (Fin 1000))) \<and>
         temperature (ss ! i) = get_prop (records ! i) 13 \<and>
         ndl (ss ! i) = get_prop (records ! i) 96 \<and>
         cns (ss ! i) = get_prop (records ! i) 93 \<and>
         (props (records ! i) (Some 13) = None \<longrightarrow> temperature (ss ! i) = Undefined) \<and>
         (props (records ! i) (Some 96) = None \<longrightarrow> ndl (ss ! i) = Undefined) \<and>
         (props (records ! i) (Some 93) = None \<longrightarrow> cns (ss ! i) = Undefined) \<and>
         (\<forall>v. props (records ! i) (Some 92) = Some (Num (Fin (real v))) \<longrightarrow>
            depth (ss ! i) = Some (round_double P (real v / 1000)))"
proof -
  let ?ms = "map (makeSample P (get_prop (records ! 0) F_TIMESTAMP)) records"
  have j: "i < length ?ms" using assms(2) by simp
  have nth: "?ms ! i = makeSample P (get_prop (records ! 0) F_TIMESTAMP) (records ! i)"
    using assms(2) by simp
  note frame = backfill_nth_frame [OF j, of P 1, folded assms(1), unfolded nth makeSample_fields]
  have rate: "ascentRate (ss ! i) = scaled P (get_prop (records ! i) F_ASCENT_RATE)"
    if "scaled P (get_prop (records ! i) F_ASCENT_RATE) \<noteq> None"
    using backfill_nth_rate_kept [OF j, of P 1] that unfolding assms(1) nth by simp
  from frame rate show ?thesis
    by (simp add: scaled_def get_prop_def F_TIMESTAMP_def F_DEPTH_def F_ASCENT_RATE_def
        F_TEMPERATURE_def F_NDL_def F_CNS_def)
qed

text \<open>
  Claim C7. For a message list with at least one record, the sample list that
  extraction builds (the map over the records, then the ascent-rate loop) has one
  sample per record, in the order of the records. The sample of a record has the
  elapsed time \<open>timestamp - firstTimestamp\<close>, the depth \<open>raw / 1000\<close> when the raw depth
  is neither \<open>null\<close> nor \<open>undefined\<close> and \<open>null\<close> otherwise, the ascent rate \<open>raw / 1000\<close>
  when the raw rate is there, and the record's temperature, NDL and CNS as they are
  (\<open>undefined\<close> when the record has none). Every dive that extraction returns has these
  samples, and it returns one when the records are no more than the arguments a call can
  take. A uint32 field whose raw value \<open>v\<close> is not 0xFFFFFFFF decodes to \<open>v\<close>, and a
  record whose depth is \<open>v\<close> gets the depth \<open>v / 1000\<close>, rounded to a double as the
  division does.
\<close>

theorem sample_of_record:
  "(records = filter (\<lambda>m. mesgNum m = 20) messages \<and> records \<noteq> [] \<and>
    ss = backfill P 1 (map (makeSample P (get_prop (records ! 0) F_TIMESTAMP)) records) \<longrightarrow>
      length ss = length records \<and>
      (\<forall>i. i < length records \<longrightarrow>
         elapsed (ss ! i) =
           num_sub P (ToNumber P (get_prop (records ! i) 253))
             (ToNumber P (get_prop (records ! 0) 253)) \<and>
         depth (ss ! i) =
           (if eqNull (get_prop (records ! i) 92) then None
            else Some (num_div P (ToNumber P (get_prop (records ! i) 92)) (Fin 1000))) \<and>
         (\<not> eqNull (get_prop (records ! i) 127) \<longrightarrow>
            ascentRate (ss ! i) =
              Some (num_div P (ToNumber P (get_prop (records ! i) 127)) (Fin 1000))) \<and>
         temperature (ss ! i) = get_prop (records ! i) 13 \<and>
         ndl (ss ! i) = get_prop (records ! i) 96 \<and>
         cns (ss ! i) = get_prop (records ! i) 93 \<and>
         (props (records ! i) (Some 13) = None \<longrightarrow> temperature (ss ! i) = Undefined) \<and>
         (props (records ! i) (Some 96) = None \<longrightarrow> ndl (ss ! i) = Undefined) \<and>
         (props (records ! i) (Some 93) = None \<longrightarrow> cns (ss ! i) = Undefined) \<and>
         (\<forall>v. props (records ! i) (Some 92) = Some (Num (Fin (real v))) \<longrightarrow>
            depth (ss ! i) = Some (round_double P (real v / 1000)))) \<and>
      (\<forall>d. extractDive P messages = Inr d \<longrightarrow> samples d = ss) \<and>
      (length records \<le> max_arguments P \<longrightarrow> (\<exists>d. extractDive P messages = Inr d))) \<and>
   (\<forall>(field::field_def) bytes offset le v.
      (unat (ToInt32 (baseType field) AND 0x1F) = 6 \<or>
       unat (ToInt32 (baseType field) AND 0x1F) = 12) \<and>
      getUint32 bytes (ToIndex offset) le = Inr v \<and> v \<noteq> 0xFFFFFFFF \<longrightarrow>
      readFieldValue bytes field le offset =
        Inr (Num (Fin (real v)), advance offset (size_bytes field)))"
proof (rule conjI)
  show "records = filter (\<lambda>m. mesgNum m = 20) messages \<and> records \<noteq> [] \<and>
    ss = backfill P 1 (map (makeSample P (get_prop (records ! 0) F_TIMESTAMP)) records) \<longrightarrow>
      length ss = length records \<and>
      (\<forall>i. i < length records \<longrightarrow>
         elapsed (ss ! i) =
           num_sub P (ToNumber P (get_prop (records ! i) 253))
             (ToNumber P (get_prop (records ! 0) 253)) \<and>
         depth (ss ! i) =
           (if eqNull (get_prop (records ! i) 92) then None
            else Some (num_div P (ToNumber P (get_prop (records ! i) 92)) (Fin 1000))) \<and>
         (\<not> eqNull (get_prop (records ! i) 127) \<longrightarrow>
            ascentRate (ss ! i) =
              Some (num_div P (ToNumber P (get_prop (records ! i) 127)) (Fin 1000))) \<and>
         temperature (ss ! i) = get_prop (records ! i) 13 \<and>
         ndl (ss ! i) = get_prop (records ! i) 96 \<and>
         cns (ss ! i) = get_prop (records ! i) 93 \<and>
         (props (records ! i) (Some 13) = None \<longrightarrow> temperature (ss ! i) = Undefined) \<and>
         (props (records ! i) (Some 96) = None \<longrightarrow> ndl (ss ! i) = Undefined) \<and>
         (props (records ! i) (Some 93) = None \<longrightarrow> cns (ss ! i) = Undefined) \<and>
         (\<forall>v. props (records ! i) (Some 92) = Some (Num (Fin (real v))) \<longrightarrow>
            depth (ss ! i) = Some (round_double P (real v / 1000)))) \<and>
      (\<forall>d. extractDive P messages = Inr d \<longrightarrow> samples d = ss) \<and>
      (length records \<le> max_arguments P \<longrightarrow> (\<exists>d. extractDive P messages = Inr d))"
  proof (rule impI)
  assume h: "records = filter (\<lambda>m. mesgNum m = 20) messages \<and> records \<noteq> [] \<and>
    ss = backfill P 1 (map (makeSample P (get_prop (records ! 0) F_TIMESTAMP)) records)"
  then have recs: "filter (\<lambda>m. mesgNum m = 20) messages = records" and ne: "records \<noteq> []"
    and ss: "ss = backfill P 1 (map (makeSample P (get_prop (records ! 0) F_TIMESTAMP)) records)"
    by blast+
  have 1: "length ss = length records" by (simp add: ss)
  have 2: "elapsed (ss ! i) =
           num_sub P (ToNumber P (get_prop (records ! i) 253))
             (ToNumber P (get_prop (records ! 0) 253)) \<and>
         depth (ss ! i) =
           (if eqNull (get_prop (records ! i) 92) then None
            else Some (num_div P (ToNumber P (get_prop (records ! i) 92)) (Fin 1000))) \<and>
         (\<not> eqNull (get_prop (records ! i) 127) \<longrightarrow>
            ascentRate (ss ! i) =
              Some (num_div P (ToNumber P (get_prop (records ! i) 127)) (Fin 1000))) \<and>
         temperature (ss ! i) = get_prop (records ! i) 13 \<and>
         ndl (ss ! i) = get_prop (records ! i) 96 \<and>
         cns (ss ! i) = get_prop (records ! i) 93 \<and>
         (props (records ! i) (Some 13) = None \<longrightarrow> temperature (ss ! i) = Undefined) \<and>
         (props (records ! i) (Some 96) = None \<longrightarrow> ndl (ss ! i) = Undefined) \<and>
         (props (records ! i) (Some 93) = None \<longrightarrow> cns (ss ! i) = Undefined) \<and>
         (\<forall>v. props (records ! i) (Some 92) = Some (Num (Fin (real v))) \<longrightarrow>
            depth (ss ! i) = Some (round_double P (real v / 1000)))"
    if "i < length records" for i
    using ss that by (rule built_sample)
  have 3: "samples d = ss" if "extractDive P messages = Inr d" for d
    using extractDive_samples [OF recs ne that] ss by simp
  have 4: "\<exists>d. extractDive P messages = Inr d" if "length records \<le> max_arguments P"
    using extractDive_records [of messages P] that ne recs by simp
  from 1 2 3 4 show "length ss = length records \<and>
      (\<forall>i. i < length records \<longrightarrow>
         elapsed (ss ! i) =
           num_sub P (ToNumber P (get_prop (records ! i) 253))
             (ToNumber P (get_prop (records ! 0) 253)) \<and>
         depth (ss ! i) =
           (if eqNull (get_prop (records ! i) 92) then None
            else Some (num_div P (ToNumber P (get_prop (records ! i) 92)) (Fin 1000))) \<and>
         (\<not> eqNull (get_prop (records ! i) 127) \<longrightarrow>
            ascentRate (ss ! i) =
              Some (num_div P (ToNumber P (get_prop (records ! i) 127)) (Fin 1000))) \<and>
         temperature (ss ! i) = get_prop (records ! i) 13 \<and>
         ndl (ss ! i) = get_prop (records ! i) 96 \<and>
         cns (ss ! i) = get_prop (records ! i) 93 \<and>
         (props (records ! i) (Some 13) = None \<longrightarrow> temperature (ss ! i) = Undefined) \<and>
         (props (records ! i) (Some 96) = None \<longrightarrow> ndl (ss ! i) = Undefined) \<and>
         (props (records ! i) (Some 93) = None \<longrightarrow> cns (ss ! i) = Undefined) \<and>
         (\<forall>v. props (records ! i) (Some 92) = Some (Num (Fin (real v))) \<longrightarrow>
            depth (ss ! i) = Some (round_double P (real v / 1000)))) \<and>
      (\<forall>d. extractDive P messages = Inr d \<longrightarrow> samples d = ss) \<and>
      (length records \<le> max_arguments P \<longrightarrow> (\<exists>d. extractDive P messages = Inr d))"
    by blast
  qed
next
  show "\<forall>(field::field_def) bytes offset le v.
      (unat (ToInt32 (baseType field) AND 0x1F) = 6 \<or>
       unat (ToInt32 (baseType field) AND 0x1F) = 12) \<and>
      getUint32 bytes (ToIndex offset) le = Inr v \<and> v \<noteq> 0xFFFFFFFF \<longrightarrow>
      readFieldValue bytes field le offset =
        Inr (Num (Fin (real v)), advance offset (size_bytes field))"
  proof (intro allI impI)
  fix field :: field_def and bytes offset le v
  assume "(unat (ToInt32 (baseType field) AND 0x1F) = 6 \<or>
       unat (ToInt32 (baseType field) AND 0x1F) = 12) \<and>
      getUint32 bytes (ToIndex offset) le = Inr v \<and> v \<noteq> 0xFFFFFFFF"
  then show "readFieldValue bytes field le offset =
        Inr (Num (Fin (real v)), advance offset (size_bytes field))"
    using readFieldValue_uint32 by blast
  qed
qed

theorem sample_of_record_witness:
  "parseFIT two_records = Inr [record_1, record_2] \<and>
   (\<exists>d. extractDive exact_platform [record_1, record_2] = Inr d \<and>
      length (samples d) = 2 \<and>
      elapsed (samples d ! 0) = Fin 0 \<and> depth (samples d ! 0) = Some (Fin 5) \<and>
      elapsed (samples d ! 1) = Fin 1 \<and> depth (samples d ! 1) = Some (Fin 4) \<and>
      temperature (samples d ! 1) = Undefined) \<and>
   readFieldValue two_records
     \<lparr>fieldDefNum = Some 92, size_bytes = Some 4, baseType = Some 0x86\<rparr> True (Some 31) =
     Inr (Num (Fin 5000), Some 35)"
proof (intro conjI)
  show "parseFIT two_records = Inr [record_1, record_2]" by (rule parseFIT_two_records)
next
  let ?rs = "[record_1, record_2]"
  let ?ss = "backfill exact_platform 1
      (map (makeSample exact_platform (get_prop (?rs ! 0) F_TIMESTAMP)) ?rs)"
  have pre: "?rs = filter (\<lambda>m. mesgNum m = 20) ?rs \<and> ?rs \<noteq> [] \<and> ?ss = ?ss"
    by (simp add: record_1_def record_2_def)
  note inst = sample_of_record [of ?rs ?rs ?ss exact_platform, THEN conjunct1, rule_format,
      OF pre]
  have len: "length ?ss = length ?rs" using inst by blast
  have all: "elapsed (?ss ! i) =
        num_sub exact_platform (ToNumber exact_platform (get_prop (?rs ! i) 253))
          (ToNumber exact_platform (get_prop (?rs ! 0) 253)) \<and>
      depth (?ss ! i) =
        (if eqNull (get_prop (?rs ! i) 92) then None
         else Some (num_div exact_platform
                (ToNumber exact_platform (get_prop (?rs ! i) 92)) (Fin 1000))) \<and>
      temperature (?ss ! i) = get_prop (?rs ! i) 13" if "i < length ?rs" for i
    using inst [THEN conjunct2, THEN conjunct1, rule_format, OF that] by blast
  have "length ?rs \<le> max_arguments exact_platform" by (simp add: exact_platform_def)
  with inst obtain d where d: "extractDive exact_platform ?rs = Inr d" by blast
  with inst have s: "samples d = ?ss" by blast
  from all [of 0] all [of 1] len
  have "length ?ss = 2 \<and>
      elapsed (?ss ! 0) = Fin 0 \<and> depth (?ss ! 0) = Some (Fin 5) \<and>
      elapsed (?ss ! 1) = Fin 1 \<and> depth (?ss ! 1) = Some (Fin 4) \<and>
      temperature (?ss ! 1) = Undefined"
    by (simp add: record_1_def record_2_def get_prop_def exact_platform_def)
  with d s show "\<exists>d. extractDive exact_platform [record_1, record_2] = Inr d \<and>
      length (samples d) = 2 \<and>
      elapsed (samples d ! 0) = Fin 0 \<and> depth (samples d ! 0) = Some (Fin 5) \<and>
      elapsed (samples d ! 1) = Fin 1 \<and> depth (samples d ! 1) = Some (Fin 4) \<and>
      temperature (samples d ! 1) = Undefined"
    by (intro exI [of _ d]) (simp only: simp_thms)
next
  have six: "unat (ToInt32 (baseType
      \<lparr>fieldDefNum = Some 92, size_bytes = Some 4, baseType = Some (0x86::byte)\<rparr>) AND 0x1F) = 6"
    by (simp add: ToInt32_def)
  have raw: "getUint32 two_records (ToIndex (Some 31)) True = Inr 5000"
    by (simp add: two_records_def getUint_def view_bytes_def be_value_def ToIndex_def)
  from sample_of_record [of "[]" "[]" "[]" exact_platform, THEN conjunct2, rule_format,
      of "\<lparr>fieldDefNum = Some 92, size_bytes = Some 4, baseType = Some 0x86\<rparr>"
         two_records "Some 31" True 5000] six raw
  show "readFieldValue two_records
     \<lparr>fieldDefNum = Some 92, size_bytes = Some 4, baseType = Some 0x86\<rparr> True (Some 31) =
     Inr (Num (Fin 5000), Some 35)"
    by (simp add: advance_def)
qed

section \<open>Session and summary values\<close>

lemma foldl_max2_Fin:
  "foldl max2 (Fin a) (map Fin xs) = Fin (Max (insert a (set xs)))"
proof (induction xs arbitrary: a)
  case Nil
  then show ?case by simp
next
  case (Cons x xs)
  have "Max (insert (max a x) (set xs)) = Max (insert a (insert x (set xs)))"
    by (cases "set xs = {}") (simp_all add: max.assoc)
  with Cons.IH [of "max a x"] show ?case by simp
qed

lemma Math_max_Fin: "xs \<noteq> [] \<Longrightarrow> Math_max (map Fin xs) = Fin (Max (set xs))"
  by (cases xs) (simp_all add: Math_max_def foldl_max2_Fin)

lemma depth_or_zero_cases:
  "depth s = None \<Longrightarrow> depth_or_zero s = Fin 0"
  "depth s = Some (Fin x) \<Longrightarrow> depth_or_zero s = Fin x"
  by (auto simp: depth_or_zero_def)

lemma eqNull_falsy: "eqNull v \<Longrightarrow> \<not> ToBoolean v"
  by (cases v) simp_all

lemma backfill_unfold:
  "i < length ss \<Longrightarrow> backfill P i ss = backfill P (Suc i) (backfill_step P i ss)"
  by (subst backfill.simps) simp

lemma backfill_done: "\<not> i < length ss \<Longrightarrow> backfill P i ss = ss"
  by (subst backfill.simps) simp

text \<open>The samples of every message list whose records are the two of the file above.\<close>

lemma samples_two_records:
  assumes "extractDive exact_platform messages = Inr d"
    and "filter (\<lambda>m. mesgNum m = 20) messages = [record_1, record_2]"
  shows "samples d =
     [\<lparr>elapsed = Fin 0, depth = Some (Fin 5), ascentRate = None,
       temperature = Undefined, ndl = Undefined, cns = Undefined\<rparr>,
      \<lparr>elapsed = Fin 1, depth = Some (Fin 4), ascentRate = Some (Fin 1),
       temperature = Undefined, ndl = Undefined, cns = Undefined\<rparr>]"
proof -
  let ?s1 = "\<lparr>elapsed = Fin 0, depth = Some (Fin 5), ascentRate = None,
       temperature = Undefined, ndl = Undefined, cns = Undefined\<rparr>"
  let ?s2 = "\<lparr>elapsed = Fin 1, depth = Some (Fin 4), ascentRate = None,
       temperature = Undefined, ndl = Undefined, cns = Undefined\<rparr>"
  have "samples d = backfill exact_platform 1
      (map (makeSample exact_platform (get_prop ([record_1, record_2] ! 0) F_TIMESTAMP))
        [record_1, record_2])"
    using extractDive_samples [OF assms(2) _ assms(1)] by simp
  also have "map (makeSample exact_platform (get_prop ([record_1, record_2] ! 0) F_TIMESTAMP))
        [record_1, record_2] = [?s1, ?s2]"
    by (simp add: makeSample_def scaled_def get_prop_def
        record_1_def record_2_def exact_platform_def F_TIMESTAMP_def F_DEPTH_def
        F_ASCENT_RATE_def F_TEMPERATURE_def F_NDL_def F_CNS_def)
  also have "backfill exact_platform 1 [?s1, ?s2] =
      backfill exact_platform (Suc 1) (backfill_step exact_platform 1 [?s1, ?s2])"
    by (rule backfill_unfold) simp
  also have "backfill_step exact_platform 1 [?s1, ?s2] =
      [?s1, ?s2\<lparr>ascentRate := Some (Fin 1)\<rparr>]"
    by (simp add: backfill_step_def exact_platform_def Let_def)
  also have "backfill exact_platform (Suc 1) [?s1, ?s2\<lparr>ascentRate := Some (Fin 1)\<rparr>] =
      [?s1, ?s2\<lparr>ascentRate := Some (Fin 1)\<rparr>]"
    by (rule backfill_done) simp
  finally show ?thesis by simp
qed


lemma two_records_fallbacks:
  assumes "extractDive exact_platform messages = Inr d"
    and "filter (\<lambda>m. mesgNum m = 20) messages = [record_1, record_2]"
  shows "elapsed (samples d ! (length (samples d) - 1)) = Fin 1"
    and "elapsed (last (samples d)) = Fin 1"
    and "Math_max (map depth_or_zero (samples d)) = Fin 5"
    and "map depth_or_zero (samples d) = map Fin [5, 4]"
  unfolding samples_two_records [OF assms]
  by (simp_all add: Math_max_def depth_or_zero_def)

text \<open>
  Messages for concrete runs: a session with start time 1000000000 and total elapsed
  time 60000, a dive summary with average depth 3000 and maximum depth 5500, and a
  session and a summary whose fields are all there with the value 0.
\<close>

definition full_session :: message where
  "full_session =
     \<lparr>mesgNum = 18, props = [Some 2 \<mapsto> Num (Fin 1000000000), Some 7 \<mapsto> Num (Fin 60000)]\<rparr>"

definition full_summary :: message where
  "full_summary =
     \<lparr>mesgNum = 268, props = [Some 2 \<mapsto> Num (Fin 3000), Some 3 \<mapsto> Num (Fin 5500)]\<rparr>"

definition zero_session :: message where
  "zero_session = \<lparr>mesgNum = 18, props = [Some 2 \<mapsto> Num (Fin 0), Some 7 \<mapsto> Num (Fin 0)]\<rparr>"

definition zero_summary :: message where
  "zero_summary = \<lparr>mesgNum = 268, props = [Some 2 \<mapsto> Num (Fin 0), Some 3 \<mapsto> Num (Fin 0)]\<rparr>"

text \<open>
  Claim C8, amended. In every dive that extraction returns, with \<open>session\<close> the first
  session message and \<open>summary\<close> the first dive summary (an object without fields when
  there is none): the total time is the session's field 7 divided by 1000 when that
  field is true (there, and not 0, NaN or the empty string), and otherwise the elapsed
  time of the last sample; the maximum depth is the summary's field 3 divided by 1000
  when that field is true, and otherwise the maximum over the samples of the depth, a
  depth that is \<open>null\<close> counting as 0; the average depth is the summary's field 2
  divided by 1000 when that field is true, and otherwise \<open>null\<close>. Extraction returns a
  dive when there are records, no more than the arguments a call can take.
\<close>

theorem aggregation_ladder:
  "(extractDive P messages = Inr d \<and>
    session = first_or_empty (filter (\<lambda>m. mesgNum m = 18) messages) \<and>
    summary = first_or_empty (filter (\<lambda>m. mesgNum m = 268) messages) \<longrightarrow>
      samples d \<noteq> [] \<and>
      totalTime d =
        (if ToBoolean (session 7) then num_div P (ToNumber P (session 7)) (Fin 1000)
         else elapsed (last (samples d))) \<and>
      maxDepth d =
        (if ToBoolean (summary 3) then num_div P (ToNumber P (summary 3)) (Fin 1000)
         else Math_max (map depth_or_zero (samples d))) \<and>
      avgDepth d =
        (if ToBoolean (summary 2) then Some (num_div P (ToNumber P (summary 2)) (Fin 1000))
         else None) \<and>
      (\<forall>x. session 7 = Num (Fin x) \<and> x \<noteq> 0 \<longrightarrow> totalTime d = round_double P (x / 1000)) \<and>
      (eqNull (session 7) \<or> session 7 = Num (Fin 0) \<longrightarrow>
         totalTime d = elapsed (last (samples d))) \<and>
      (\<forall>x. summary 3 = Num (Fin x) \<and> x \<noteq> 0 \<longrightarrow> maxDepth d = round_double P (x / 1000)) \<and>
      (\<forall>xs. (eqNull (summary 3) \<or> summary 3 = Num (Fin 0)) \<and>
            map depth_or_zero (samples d) = map Fin xs \<longrightarrow>
         maxDepth d = Fin (Max (set xs))) \<and>
      (\<forall>x. summary 2 = Num (Fin x) \<and> x \<noteq> 0 \<longrightarrow>
         avgDepth d = Some (round_double P (x / 1000))) \<and>
      (eqNull (summary 2) \<or> summary 2 = Num (Fin 0) \<longrightarrow> avgDepth d = None)) \<and>
   (\<forall>s. depth s = None \<longrightarrow> depth_or_zero s = Fin 0) \<and>
   (\<forall>s x. depth s = Some (Fin x) \<longrightarrow> depth_or_zero s = Fin x) \<and>
   (filter (\<lambda>m. mesgNum m = 20) messages \<noteq> [] \<and>
    length (filter (\<lambda>m. mesgNum m = 20) messages) \<le> max_arguments P \<longrightarrow>
      (\<exists>d. extractDive P messages = Inr d))"
proof (intro conjI)
  show "extractDive P messages = Inr d \<and>
    session = first_or_empty (filter (\<lambda>m. mesgNum m = 18) messages) \<and>
    summary = first_or_empty (filter (\<lambda>m. mesgNum m = 268) messages) \<longrightarrow>
      samples d \<noteq> [] \<and>
      totalTime d =
        (if ToBoolean (session 7) then num_div P (ToNumber P (session 7)) (Fin 1000)
         else elapsed (last (samples d))) \<and>
      maxDepth d =
        (if ToBoolean (summary 3) then num_div P (ToNumber P (summary 3)) (Fin 1000)
         else Math_max (map depth_or_zero (samples d))) \<and>
      avgDepth d =
        (if ToBoolean (summary 2) then Some (num_div P (ToNumber P (summary 2)) (Fin 1000))
         else None) \<and>
      (\<forall>x. session 7 = Num (Fin x) \<and> x \<noteq> 0 \<longrightarrow> totalTime d = round_double P (x / 1000)) \<and>
      (eqNull (session 7) \<or> session 7 = Num (Fin 0) \<longrightarrow>
         totalTime d = elapsed (last (samples d))) \<and>
      (\<forall>x. summary 3 = Num (Fin x) \<and> x \<noteq> 0 \<longrightarrow> maxDepth d = round_double P (x / 1000)) \<and>
      (\<forall>xs. (eqNull (summary 3) \<or> summary 3 = Num (Fin 0)) \<and>
            map depth_or_zero (samples d) = map Fin xs \<longrightarrow>
         maxDepth d = Fin (Max (set xs))) \<and>
      (\<forall>x. summary 2 = Num (Fin x) \<and> x \<noteq> 0 \<longrightarrow>
         avgDepth d = Some (round_double P (x / 1000))) \<and>
      (eqNull (summary 2) \<or> summary 2 = Num (Fin 0) \<longrightarrow> avgDepth d = None)"
  proof (rule impI)
    assume h: "extractDive P messages = Inr d \<and>
      session = first_or_empty (filter (\<lambda>m. mesgNum m = 18) messages) \<and>
      summary = first_or_empty (filter (\<lambda>m. mesgNum m = 268) messages)"
    then have d: "extractDive P messages = Inr d"
      and se: "session = first_or_empty (filter (\<lambda>m. mesgNum m = 18) messages)"
      and su: "summary = first_or_empty (filter (\<lambda>m. mesgNum m = 268) messages)"
      by blast+
    note f = extractDive_fields [OF d refl se su]
    have ne: "samples d \<noteq> []"
    proof
      assume "samples d = []"
      then have "length (samples d) = 0" by simp
      with f(1) show False unfolding f(2) by simp
    qed
    have last: "last (samples d) = samples d ! (length (samples d) - 1)"
      using ne by (rule last_conv_nth)
    have total: "totalTime d =
        (if ToBoolean (session 7) then num_div P (ToNumber P (session 7)) (Fin 1000)
         else elapsed (last (samples d)))"
      unfolding last by (rule f(4))
    note deepest = f(5) and average = f(6)
    have 1: "totalTime d = round_double P (x / 1000)" if "session 7 = Num (Fin x) \<and> x \<noteq> 0" for x
      using that total by simp
    have 2: "totalTime d = elapsed (last (samples d))"
      if "eqNull (session 7) \<or> session 7 = Num (Fin 0)"
      using that total eqNull_falsy [of "session 7"] by auto
    have 3: "maxDepth d = round_double P (x / 1000)" if "summary 3 = Num (Fin x) \<and> x \<noteq> 0" for x
      using that deepest by simp
    have 4: "maxDepth d = Fin (Max (set xs))"
      if "(eqNull (summary 3) \<or> summary 3 = Num (Fin 0)) \<and>
          map depth_or_zero (samples d) = map Fin xs" for xs
    proof -
      from that have "\<not> ToBoolean (summary 3)" using eqNull_falsy [of "summary 3"] by auto
      with deepest that have m: "maxDepth d = Math_max (map Fin xs)" by simp
      from that ne have "xs \<noteq> []" by auto
      with m show ?thesis by (simp add: Math_max_Fin)
    qed
    have 5: "avgDepth d = Some (round_double P (x / 1000))"
      if "summary 2 = Num (Fin x) \<and> x \<noteq> 0" for x
      using that average by simp
    have 6: "avgDepth d = None" if "eqNull (summary 2) \<or> summary 2 = Num (Fin 0)"
      using that average eqNull_falsy [of "summary 2"] by auto
    from ne total deepest average 1 2 3 4 5 6
    show "samples d \<noteq> [] \<and>
      totalTime d =
        (if ToBoolean (session 7) then num_div P (ToNumber P (session 7)) (Fin 1000)
         else elapsed (last (samples d))) \<and>
      maxDepth d =
        (if ToBoolean (summary 3) then num_div P (ToNumber P (summary 3)) (Fin 1000)
         else Math_max (map depth_or_zero (samples d))) \<and>
      avgDepth d =
        (if ToBoolean (summary 2) then Some (num_div P (ToNumber P (summary 2)) (Fin 1000))
         else None) \<and>
      (\<forall>x. session 7 = Num (Fin x) \<and> x \<noteq> 0 \<longrightarrow> totalTime d = round_double P (x / 1000)) \<and>
      (eqNull (session 7) \<or> session 7 = Num (Fin 0) \<longrightarrow>
         totalTime d = elapsed (last (samples d))) \<and>
      (\<forall>x. summary 3 = Num (Fin x) \<and> x \<noteq> 0 \<longrightarrow> maxDepth d = round_double P (x / 1000)) \<and>
      (\<forall>xs. (eqNull (summary 3) \<or> summary 3 = Num (Fin 0)) \<and>
            map depth_or_zero (samples d) = map Fin xs \<longrightarrow>
         maxDepth d = Fin (Max (set xs))) \<and>
      (\<forall>x. summary 2 = Num (Fin x) \<and> x \<noteq> 0 \<longrightarrow>
         avgDepth d = Some (round_double P (x / 1000))) \<and>
      (eqNull (summary 2) \<or> summary 2 = Num (Fin 0) \<longrightarrow> avgDepth d = None)"
      by blast
  qed
  show "\<forall>s. depth s = None \<longrightarrow> depth_or_zero s = Fin 0"
    by (simp add: depth_or_zero_cases)
  show "\<forall>s x. depth s = Some (Fin x) \<longrightarrow> depth_or_zero s = Fin x"
    by (simp add: depth_or_zero_cases)
  show "filter (\<lambda>m. mesgNum m = 20) messages \<noteq> [] \<and>
    length (filter (\<lambda>m. mesgNum m = 20) messages) \<le> max_arguments P \<longrightarrow>
      (\<exists>d. extractDive P messages = Inr d)"
    using extractDive_records [of messages P] by blast
qed


theorem aggregation_ladder_witness:
  "(\<exists>d. extractDive exact_platform [full_session, full_summary, record_1, record_2] = Inr d \<and>
        totalTime d = Fin 60 \<and> maxDepth d = Fin (11 / 2) \<and> avgDepth d = Some (Fin 3)) \<and>
   (\<exists>d. extractDive exact_platform [record_1, record_2] = Inr d \<and>
        totalTime d = Fin 1 \<and> maxDepth d = Fin 5 \<and> avgDepth d = None)"
proof (rule conjI)
  let ?ms = "[full_session, full_summary, record_1, record_2]"
  have recs: "filter (\<lambda>m. mesgNum m = 20) ?ms = [record_1, record_2]"
    by (simp add: full_session_def full_summary_def record_1_def record_2_def)
  have se: "first_or_empty (filter (\<lambda>m. mesgNum m = 18) ?ms) = get_prop full_session"
    by (simp add: first_or_empty_def full_session_def full_summary_def record_1_def record_2_def)
  have su: "first_or_empty (filter (\<lambda>m. mesgNum m = 268) ?ms) = get_prop full_summary"
    by (simp add: first_or_empty_def full_session_def full_summary_def record_1_def record_2_def)
  obtain d where d: "extractDive exact_platform ?ms = Inr d"
    using aggregation_ladder [of exact_platform ?ms, THEN conjunct2, THEN conjunct2,
        THEN conjunct2] recs
    by (auto simp: exact_platform_def)
  from aggregation_ladder [of exact_platform ?ms d "get_prop full_session"
      "get_prop full_summary", THEN conjunct1] d se su
  have "totalTime d = Fin 60 \<and> maxDepth d = Fin (11 / 2) \<and> avgDepth d = Some (Fin 3)"
    by (simp add: get_prop_def full_session_def full_summary_def exact_platform_def)
  with d show "\<exists>d. extractDive exact_platform ?ms = Inr d \<and>
        totalTime d = Fin 60 \<and> maxDepth d = Fin (11 / 2) \<and> avgDepth d = Some (Fin 3)"
    by blast
next
  let ?ms = "[record_1, record_2]"
  have recs: "filter (\<lambda>m. mesgNum m = 20) ?ms = [record_1, record_2]"
    by (simp add: record_1_def record_2_def)
  have se: "first_or_empty (filter (\<lambda>m. mesgNum m = 18) ?ms) = (\<lambda>k. Undefined)"
    by (simp add: first_or_empty_def record_1_def record_2_def)
  have su: "first_or_empty (filter (\<lambda>m. mesgNum m = 268) ?ms) = (\<lambda>k. Undefined)"
    by (simp add: first_or_empty_def record_1_def record_2_def)
  obtain d where d: "extractDive exact_platform ?ms = Inr d"
    using aggregation_ladder [of exact_platform ?ms, THEN conjunct2, THEN conjunct2,
        THEN conjunct2] recs
    by (auto simp: exact_platform_def)
  from aggregation_ladder [of exact_platform ?ms d "\<lambda>k. Undefined" "\<lambda>k. Undefined",
      THEN conjunct1] d se su two_records_fallbacks [OF d recs]
  have "totalTime d = Fin 1 \<and> maxDepth d = Fin 5 \<and> avgDepth d = None"
    by simp
  with d show "\<exists>d. extractDive exact_platform ?ms = Inr d \<and>
        totalTime d = Fin 1 \<and> maxDepth d = Fin 5 \<and> avgDepth d = None"
    by blast
qed

text \<open>
  Claim C8 as stated fails when the fields are there with the value 0, which is what a
  uint32 field with the raw bytes 0 decodes to: the total time is not \<open>0 / 1000\<close> but
  the elapsed time of the last sample, the maximum depth is not \<open>0 / 1000\<close> but the
  maximum over the samples, and the average depth is not \<open>0 / 1000\<close> but \<open>null\<close>.
\<close>

theorem aggregation_ladder_counterexample:
  "readFieldValue [0, 0, 0, 0]
     \<lparr>fieldDefNum = Some 7, size_bytes = Some 4, baseType = Some 0x86\<rparr> True (Some 0) =
     Inr (Num (Fin 0), Some 4) \<and>
   props zero_session (Some 7) = Some (Num (Fin 0)) \<and>
   props zero_summary (Some 3) = Some (Num (Fin 0)) \<and>
   props zero_summary (Some 2) = Some (Num (Fin 0)) \<and>
   num_div exact_platform (Fin 0) (Fin 1000) = Fin 0 \<and>
   map_sum id totalTime (extractDive exact_platform [zero_session, zero_summary, record_1, record_2]) = Inr (Fin 1) \<and>
   map_sum id maxDepth (extractDive exact_platform [zero_session, zero_summary, record_1, record_2]) = Inr (Fin 5) \<and>
   map_sum id avgDepth (extractDive exact_platform [zero_session, zero_summary, record_1, record_2]) = Inr None"
proof -
  let ?ms = "[zero_session, zero_summary, record_1, record_2]"
  have recs: "filter (\<lambda>m. mesgNum m = 20) ?ms = [record_1, record_2]"
    by (simp add: zero_session_def zero_summary_def record_1_def record_2_def)
  have se: "get_prop zero_session = first_or_empty (filter (\<lambda>m. mesgNum m = 18) ?ms)"
    by (simp add: first_or_empty_def zero_session_def zero_summary_def record_1_def record_2_def)
  have su: "get_prop zero_summary = first_or_empty (filter (\<lambda>m. mesgNum m = 268) ?ms)"
    by (simp add: first_or_empty_def zero_session_def zero_summary_def record_1_def record_2_def)
  obtain d where d: "extractDive exact_platform ?ms = Inr d"
    using extractDive_records [of ?ms exact_platform] recs by (auto simp: exact_platform_def)
  note f = extractDive_fields [OF d refl se su] and g = two_records_fallbacks [OF d recs]
  have total: "totalTime d = Fin 1"
    using f(4) g(1) by (simp add: get_prop_def zero_session_def)
  have deepest: "maxDepth d = Fin 5"
    using f(5) g(3) by (simp add: get_prop_def zero_summary_def)
  have average: "avgDepth d = None"
    using f(6) by (simp add: get_prop_def zero_summary_def)
  have raw: "readFieldValue [0, 0, 0, 0]
     \<lparr>fieldDefNum = Some 7, size_bytes = Some 4, baseType = Some 0x86\<rparr> True (Some 0) =
     Inr (Num (Fin 0), Some 4)"
    by (simp add: readFieldValue_def ToInt32_def ToIndex_def getUint_def view_bytes_def
        be_value_def int_val_def advance_def)
  have fields: "props zero_session (Some 7) = Some (Num (Fin 0)) \<and>
      props zero_summary (Some 3) = Some (Num (Fin 0)) \<and>
      props zero_summary (Some 2) = Some (Num (Fin 0)) \<and>
      num_div exact_platform (Fin 0) (Fin 1000) = Fin 0"
    by (simp add: zero_session_def zero_summary_def exact_platform_def)
  have results: "map_sum id totalTime (extractDive exact_platform ?ms) = Inr (Fin 1) \<and>
      map_sum id maxDepth (extractDive exact_platform ?ms) = Inr (Fin 5) \<and>
      map_sum id avgDepth (extractDive exact_platform ?ms) = Inr None"
    by (simp add: d total deepest average)
  from raw fields results show ?thesis by blast
qed

section \<open>The start date\<close>

lemma garminTimestampToDate_falsy: "\<not> ToBoolean ts \<Longrightarrow> garminTimestampToDate P ts = None"
  by (simp add: garminTimestampToDate_def)

lemma garminTimestampToDate_number:
  "x \<noteq> 0 \<Longrightarrow>
   garminTimestampToDate P (Num (Fin x)) =
     Some (Date (TimeClip (num_mul P (num_add P (Fin x) GARMIN_EPOCH) (Fin 1000))))"
  by (simp add: garminTimestampToDate_def js_plus_def)

lemma TimeClip_nat: "n \<le> 8640000000000000 \<Longrightarrow> TimeClip (Fin (real n)) = Fin (real n)"
  by (simp add: TimeClip_def)

lemma garminTimestampToDate_uint32:
  assumes "0 < t" and "t < 2 ^ 32"
    and "round_double P (real (t + 631065600)) = Fin (real (t + 631065600))"
    and "round_double P (real ((t + 631065600) * 1000)) = Fin (real ((t + 631065600) * 1000))"
  shows "garminTimestampToDate P (Num (Fin (real t))) =
         Some (Date (Fin (real ((t + 631065600) * 1000))))"
proof -
  have a: "real t + 631065600 = real (t + 631065600)" by simp
  have m: "real (t + 631065600) * 1000 = real ((t + 631065600) * 1000)" by simp
  have add: "num_add P (Fin (real t)) GARMIN_EPOCH = Fin (real (t + 631065600))"
    unfolding GARMIN_EPOCH_def num_add.simps a by (rule assms(3))
  have mul: "num_mul P (Fin (real (t + 631065600))) (Fin 1000) =
      Fin (real ((t + 631065600) * 1000))"
    unfolding num_mul.simps m by (rule assms(4))
  from assms(2) have "(t + 631065600) * 1000 \<le> 8640000000000000" by simp
  then have clip: "TimeClip (Fin (real ((t + 631065600) * 1000))) =
      Fin (real ((t + 631065600) * 1000))"
    by (rule TimeClip_nat)
  from assms(1) have "real t \<noteq> 0" by simp
  from garminTimestampToDate_number [OF this, of P] show ?thesis
    by (simp only: add mul clip)
qed

text \<open>
  Claim C9, amended. A timestamp that is false (0, \<open>null\<close>, \<open>undefined\<close>, NaN or the
  empty string) converts to \<open>null\<close>. Any other number \<open>x\<close> converts to the date whose
  time value is \<open>(x + 631065600) * 1000\<close> milliseconds, as the double arithmetic computes
  it; for a 32-bit timestamp \<open>t\<close> other than 0 the sum and the product are integers that
  a double holds, and the date is \<open>t + 631065600\<close> seconds after the 1970 epoch. The
  start date of every dive that extraction returns is the conversion of the first
  session message's field 2 when that field is true (there, and not 0), and otherwise
  of the first record's timestamp.
\<close>

theorem garmin_epoch_conversion:
  "(\<not> ToBoolean ts \<longrightarrow> garminTimestampToDate P ts = None) \<and>
   garminTimestampToDate P (Num (Fin 0)) = None \<and>
   garminTimestampToDate P Null = None \<and>
   garminTimestampToDate P Undefined = None \<and>
   GARMIN_EPOCH = Fin 631065600 \<and>
   (\<forall>x. x \<noteq> 0 \<longrightarrow>
      garminTimestampToDate P (Num (Fin x)) =
        Some (Date (TimeClip (num_mul P (num_add P (Fin x) GARMIN_EPOCH) (Fin 1000))))) \<and>
   (\<forall>t. 0 < t \<and> t < 2 ^ 32 \<and>
        round_double P (real (t + 631065600)) = Fin (real (t + 631065600)) \<and>
        round_double P (real ((t + 631065600) * 1000)) =
          Fin (real ((t + 631065600) * 1000)) \<longrightarrow>
      garminTimestampToDate P (Num (Fin (real t))) =
        Some (Date (Fin (real ((t + 631065600) * 1000))))) \<and>
   (extractDive P messages = Inr d \<and>
    session = first_or_empty (filter (\<lambda>m. mesgNum m = 18) messages) \<and>
    records = filter (\<lambda>m. mesgNum m = 20) messages \<longrightarrow>
      records \<noteq> [] \<and>
      startDate d = garminTimestampToDate P
        (if ToBoolean (session 2) then session 2 else get_prop (records ! 0) 253)) \<and>
   (filter (\<lambda>m. mesgNum m = 20) messages \<noteq> [] \<and>
    length (filter (\<lambda>m. mesgNum m = 20) messages) \<le> max_arguments P \<longrightarrow>
      (\<exists>d. extractDive P messages = Inr d))"
proof (intro conjI)
  show "\<not> ToBoolean ts \<longrightarrow> garminTimestampToDate P ts = None"
    by (simp add: garminTimestampToDate_falsy)
  show "garminTimestampToDate P (Num (Fin 0)) = None" by (simp add: garminTimestampToDate_falsy)
  show "garminTimestampToDate P Null = None" by (simp add: garminTimestampToDate_falsy)
  show "garminTimestampToDate P Undefined = None" by (simp add: garminTimestampToDate_falsy)
  show "GARMIN_EPOCH = Fin 631065600" by (rule GARMIN_EPOCH_def)
  show "\<forall>x. x \<noteq> 0 \<longrightarrow>
      garminTimestampToDate P (Num (Fin x)) =
        Some (Date (TimeClip (num_mul P (num_add P (Fin x) GARMIN_EPOCH) (Fin 1000))))"
    using garminTimestampToDate_number by blast
  show "\<forall>t. 0 < t \<and> t < 2 ^ 32 \<and>
        round_double P (real (t + 631065600)) = Fin (real (t + 631065600)) \<and>
        round_double P (real ((t + 631065600) * 1000)) =
          Fin (real ((t + 631065600) * 1000)) \<longrightarrow>
      garminTimestampToDate P (Num (Fin (real t))) =
        Some (Date (Fin (real ((t + 631065600) * 1000))))"
    using garminTimestampToDate_uint32 by blast
  show "extractDive P messages = Inr d \<and>
    session = first_or_empty (filter (\<lambda>m. mesgNum m = 18) messages) \<and>
    records = filter (\<lambda>m. mesgNum m = 20) messages \<longrightarrow>
      records \<noteq> [] \<and>
      startDate d = garminTimestampToDate P
        (if ToBoolean (session 2) then session 2 else get_prop (records ! 0) 253)"
  proof (rule impI)
    assume "extractDive P messages = Inr d \<and>
      session = first_or_empty (filter (\<lambda>m. mesgNum m = 18) messages) \<and>
      records = filter (\<lambda>m. mesgNum m = 20) messages"
    then have d: "extractDive P messages = Inr d"
      and se: "session = first_or_empty (filter (\<lambda>m. mesgNum m = 18) messages)"
      and re: "records = filter (\<lambda>m. mesgNum m = 20) messages"
      by blast+
    note f = extractDive_fields [OF d re se refl]
    from f(1) f(3) show "records \<noteq> [] \<and>
      startDate d = garminTimestampToDate P
        (if ToBoolean (session 2) then session 2 else get_prop (records ! 0) 253)"
      by blast
  qed
  show "filter (\<lambda>m. mesgNum m = 20) messages \<noteq> [] \<and>
    length (filter (\<lambda>m. mesgNum m = 20) messages) \<le> max_arguments P \<longrightarrow>
      (\<exists>d. extractDive P messages = Inr d)"
    using extractDive_records [of messages P] by blast
qed


lemma garminTimestampToDate_exact:
  "garminTimestampToDate exact_platform (Num (Fin 1000)) = Some (Date (Fin 631066600000))"
  "garminTimestampToDate exact_platform (Num (Fin 1000000000)) =
     Some (Date (Fin 1631065600000))"
  by (simp_all add: garminTimestampToDate_def js_plus_def GARMIN_EPOCH_def TimeClip_def
      exact_platform_def)

theorem garmin_epoch_conversion_witness:
  "garminTimestampToDate exact_platform (Num (Fin 1000)) = Some (Date (Fin 631066600000)) \<and>
   (\<exists>d. extractDive exact_platform [full_session, record_1, record_2] = Inr d \<and>
        startDate d = Some (Date (Fin 1631065600000))) \<and>
   (\<exists>d. extractDive exact_platform [record_1, record_2] = Inr d \<and>
        startDate d = Some (Date (Fin 631066600000)))"
proof (intro conjI)
  note conv = garmin_epoch_conversion [of Null exact_platform,
      THEN conjunct2, THEN conjunct2, THEN conjunct2, THEN conjunct2, THEN conjunct2,
      THEN conjunct2, THEN conjunct1, rule_format, of 1000]
  have "garminTimestampToDate exact_platform (Num (Fin (real (1000::nat)))) =
      Some (Date (Fin (real (((1000::nat) + 631065600) * 1000))))"
    by (rule conv) (simp add: exact_platform_def)
  then show "garminTimestampToDate exact_platform (Num (Fin 1000)) =
      Some (Date (Fin 631066600000))"
    by simp
next
  let ?ms = "[full_session, record_1, record_2]"
  have recs: "filter (\<lambda>m. mesgNum m = 20) ?ms = [record_1, record_2]"
    by (simp add: full_session_def record_1_def record_2_def)
  have se: "first_or_empty (filter (\<lambda>m. mesgNum m = 18) ?ms) = get_prop full_session"
    by (simp add: first_or_empty_def full_session_def record_1_def record_2_def)
  note inst = garmin_epoch_conversion [of Null exact_platform ?ms]
  obtain d where d: "extractDive exact_platform ?ms = Inr d"
    using inst [THEN conjunct2, THEN conjunct2, THEN conjunct2, THEN conjunct2, THEN conjunct2,
        THEN conjunct2, THEN conjunct2, THEN conjunct2] recs
    by (auto simp: exact_platform_def)
  from inst [of d "get_prop full_session" "[record_1, record_2]",
      THEN conjunct2, THEN conjunct2, THEN conjunct2, THEN conjunct2, THEN conjunct2,
      THEN conjunct2, THEN conjunct2, THEN conjunct1] d se recs
  have "startDate d = Some (Date (Fin 1631065600000))"
    by (simp add: get_prop_def full_session_def garminTimestampToDate_exact)
  with d show "\<exists>d. extractDive exact_platform ?ms = Inr d \<and>
        startDate d = Some (Date (Fin 1631065600000))"
    by blast
next
  let ?ms = "[record_1, record_2]"
  have recs: "filter (\<lambda>m. mesgNum m = 20) ?ms = [record_1, record_2]"
    by (simp add: record_1_def record_2_def)
  have se: "first_or_empty (filter (\<lambda>m. mesgNum m = 18) ?ms) = (\<lambda>k. Undefined)"
    by (simp add: first_or_empty_def record_1_def record_2_def)
  note inst = garmin_epoch_conversion [of Null exact_platform ?ms]
  obtain d where d: "extractDive exact_platform ?ms = Inr d"
    using inst [THEN conjunct2, THEN conjunct2, THEN conjunct2, THEN conjunct2, THEN conjunct2,
        THEN conjunct2, THEN conjunct2, THEN conjunct2] recs
    by (auto simp: exact_platform_def)
  from inst [of d "\<lambda>k. Undefined" "[record_1, record_2]",
      THEN conjunct2, THEN conjunct2, THEN conjunct2, THEN conjunct2, THEN conjunct2,
      THEN conjunct2, THEN conjunct2, THEN conjunct1] d se recs
  have "startDate d = Some (Date (Fin 631066600000))"
    by (simp add: get_prop_def record_1_def garminTimestampToDate_exact)
  with d show "\<exists>d. extractDive exact_platform ?ms = Inr d \<and>
        startDate d = Some (Date (Fin 631066600000))"
    by blast
qed

text \<open>
  Claim C9 as stated fails when the session's start time is there with the value 0,
  which is what a uint32 field with the raw bytes 0 decodes to: the conversion of 0 is
  \<open>null\<close>, but the start date is the conversion of the first record's timestamp.
\<close>

theorem garmin_epoch_conversion_counterexample:
  "readFieldValue [0, 0, 0, 0]
     \<lparr>fieldDefNum = Some 2, size_bytes = Some 4, baseType = Some 0x86\<rparr> True (Some 0) =
     Inr (Num (Fin 0), Some 4) \<and>
   props zero_session (Some 2) = Some (Num (Fin 0)) \<and>
   garminTimestampToDate exact_platform (get_prop zero_session 2) = None \<and>
   map_sum id startDate (extractDive exact_platform [zero_session, record_1, record_2]) =
     Inr (Some (Date (Fin 631066600000)))"
proof -
  let ?ms = "[zero_session, record_1, record_2]"
  have recs: "filter (\<lambda>m. mesgNum m = 20) ?ms = [record_1, record_2]"
    by (simp add: zero_session_def record_1_def record_2_def)
  have se: "get_prop zero_session = first_or_empty (filter (\<lambda>m. mesgNum m = 18) ?ms)"
    by (simp add: first_or_empty_def zero_session_def record_1_def record_2_def)
  obtain d where d: "extractDive exact_platform ?ms = Inr d"
    using extractDive_records [of ?ms exact_platform] recs by (auto simp: exact_platform_def)
  have "startDate d = garminTimestampToDate exact_platform
      (if ToBoolean (get_prop zero_session 2) then get_prop zero_session 2
       else get_prop ([record_1, record_2] ! 0) 253)"
    using extractDive_fields(3) [OF d recs [symmetric] se refl] .
  then have start: "startDate d = Some (Date (Fin 631066600000))"
    by (simp add: get_prop_def zero_session_def record_1_def garminTimestampToDate_exact)
  have raw: "readFieldValue [0, 0, 0, 0]
     \<lparr>fieldDefNum = Some 2, size_bytes = Some 4, baseType = Some 0x86\<rparr> True (Some 0) =
     Inr (Num (Fin 0), Some 4)"
    by (simp add: readFieldValue_def ToInt32_def ToIndex_def getUint_def view_bytes_def
        be_value_def int_val_def advance_def)
  have fields: "props zero_session (Some 2) = Some (Num (Fin 0)) \<and>
      garminTimestampToDate exact_platform (get_prop zero_session 2) = None"
    by (simp add: zero_session_def get_prop_def garminTimestampToDate_def)
  have result: "map_sum id startDate (extractDive exact_platform ?ms) =
      Inr (Some (Date (Fin 631066600000)))"
    by (simp add: d start)
  from raw fields result show ?thesis by blast
qed

end
